theory Spec2Isabelle
  imports Main "HOL-Library.AList" "HOL-Library.Multiset"
begin

section \<open>Python values and strings\<close>

text \<open>
  The two scripts \<^verbatim>\<open>attStatusPreventivos_cobranca.py\<close> (keys are pairs of an
  invoice number and a company id) and \<^verbatim>\<open>attStatusPreventivos_preventivos.py\<close>
  (keys are order numbers) are embedded side by side. Functions whose text is the same
  in both files (\<^verbatim>\<open>chunked\<close>, \<^verbatim>\<open>authenticate\<close>,
  \<^verbatim>\<open>_request\<close>, \<^verbatim>\<open>extract_codigo\<close>) are embedded once;
  functions that differ carry the suffix \<open>_cobranca\<close> or \<open>_preventivos\<close>.

  A Python \<^verbatim>\<open>str\<close> is a \<open>string\<close>; a \<open>char\<close> stands for a code point
  below 256, and the character classes below are Python's on that range
  (\<^verbatim>\<open>str.isdigit\<close> also holds of the superscripts 178, 179 and 185;
  \<^verbatim>\<open>str.strip\<close> removes the controls 9-13 and 28-31, the space, 133 and 160).
\<close>

definition py_isdigit_chr :: "char \<Rightarrow> bool" where
  "py_isdigit_chr c =
     (let n = (of_char c :: nat)
      in (48 \<le> n \<and> n \<le> 57) \<or> n = 178 \<or> n = 179 \<or> n = 185)"

definition py_isspace_chr :: "char \<Rightarrow> bool" where
  "py_isspace_chr c =
     (let n = (of_char c :: nat)
      in (9 \<le> n \<and> n \<le> 13) \<or> (28 \<le> n \<and> n \<le> 32) \<or> n = 133 \<or> n = 160)"

definition py_lower_chr :: "char \<Rightarrow> char" where
  "py_lower_chr c =
     (let n = (of_char c :: nat)
      in if (65 \<le> n \<and> n \<le> 90) \<or> (192 \<le> n \<and> n \<le> 222 \<and> n \<noteq> 215)
         then char_of (n + 32) else c)"

definition py_lower :: "string \<Rightarrow> string" where
  "py_lower s = map py_lower_chr s"

text \<open>\<^verbatim>\<open>s.strip()\<close>: leading and trailing whitespace removed.\<close>

definition py_strip :: "string \<Rightarrow> string" where
  "py_strip s = rev (dropWhile py_isspace_chr (rev (dropWhile py_isspace_chr s)))"

text \<open>\<^verbatim>\<open>s.isdigit()\<close>: non-empty and every character a digit.\<close>

definition py_isdigit :: "string \<Rightarrow> bool" where
  "py_isdigit s = (s \<noteq> [] \<and> list_all py_isdigit_chr s)"

definition py_endswith :: "string \<Rightarrow> string \<Rightarrow> bool" where
  "py_endswith s suf = (length suf \<le> length s \<and> drop (length s - length suf) s = suf)"

text \<open>\<^verbatim>\<open>s.zfill(width)\<close>: zeros on the left, after a leading sign.\<close>

definition py_zfill :: "string \<Rightarrow> nat \<Rightarrow> string" where
  "py_zfill s width =
     (if width \<le> length s then s
      else (case s of
              c # rest \<Rightarrow>
                if c = CHR ''+'' \<or> c = CHR ''-''
                then c # replicate (width - length s) (CHR ''0'') @ rest
                else replicate (width - length s) (CHR ''0'') @ s
            | [] \<Rightarrow> replicate width (CHR ''0'')))"

text \<open>\<^verbatim>\<open>sep.join(parts)\<close>.\<close>

fun py_join :: "string \<Rightarrow> string list \<Rightarrow> string" where
  "py_join sep [] = []"
| "py_join sep [x] = x"
| "py_join sep (x # y # ys) = x @ sep @ py_join sep (y # ys)"

text \<open>\<^verbatim>\<open>str(n)\<close> of an integer: its decimal digits, with a minus sign when negative.\<close>

fun str_nat :: "nat \<Rightarrow> string" where
  "str_nat n =
     (if n < 10 then [''0123456789'' ! n]
      else str_nat (n div 10) @ [''0123456789'' ! (n mod 10)])"

declare str_nat.simps [simp del]

definition str_int :: "int \<Rightarrow> string" where
  "str_int i = (if i < 0 then CHR ''-'' # str_nat (nat (- i)) else str_nat (nat i))"

text \<open>
  The code looks at a float only through \<^verbatim>\<open>pd.isna\<close>, \<^verbatim>\<open>is_integer()\<close>,
  \<^verbatim>\<open>int()\<close> and \<^verbatim>\<open>str()\<close>, so a float is given by what these return:
  \<open>Float_nan\<close> is NaN, \<open>Float_integral n r\<close> a float with \<^verbatim>\<open>is_integer()\<close> true,
  \<^verbatim>\<open>int(value) = n\<close> and \<^verbatim>\<open>str(value) = r\<close>, and \<open>Float_other r\<close> any other float
  (not an integer, or infinite) with \<^verbatim>\<open>str(value) = r\<close>.
\<close>

datatype pyfloat = Float_nan | Float_integral int string | Float_other string

datatype pyval = PNone | PBool bool | PInt int | PFloat pyfloat | PStr string

fun str_float :: "pyfloat \<Rightarrow> string" where
  "str_float Float_nan = ''nan''"
| "str_float (Float_integral n r) = r"
| "str_float (Float_other r) = r"

fun py_str :: "pyval \<Rightarrow> string" where
  "py_str PNone = ''None''"
| "py_str (PBool b) = (if b then ''True'' else ''False'')"
| "py_str (PInt n) = str_int n"
| "py_str (PFloat f) = str_float f"
| "py_str (PStr s) = s"

text \<open>Truth value of an object (\<^verbatim>\<open>not x\<close>, \<^verbatim>\<open>x or y\<close>); NaN is true.\<close>

fun py_truthy :: "pyval \<Rightarrow> bool" where
  "py_truthy PNone = False"
| "py_truthy (PBool b) = b"
| "py_truthy (PInt n) = (n \<noteq> 0)"
| "py_truthy (PFloat Float_nan) = True"
| "py_truthy (PFloat (Float_integral n r)) = (n \<noteq> 0)"
| "py_truthy (PFloat (Float_other r)) = True"
| "py_truthy (PStr s) = (s \<noteq> [])"

text \<open>\<^verbatim>\<open>isinstance(value, float)\<close>, \<^verbatim>\<open>isinstance(value, int)\<close> (a bool is an int).\<close>

fun is_float :: "pyval \<Rightarrow> bool" where
  "is_float (PFloat f) = True"
| "is_float v = False"

fun is_int :: "pyval \<Rightarrow> bool" where
  "is_int (PInt n) = True"
| "is_int (PBool b) = True"
| "is_int v = False"

fun pd_isna :: "pyval \<Rightarrow> bool" where
  "pd_isna PNone = True"
| "pd_isna (PFloat Float_nan) = True"
| "pd_isna v = False"

fun float_is_integer :: "pyval \<Rightarrow> bool" where
  "float_is_integer (PFloat (Float_integral n r)) = True"
| "float_is_integer v = False"

fun float_int :: "pyval \<Rightarrow> int" where
  "float_int (PFloat (Float_integral n r)) = n"
| "float_int v = 0"

datatype error = ValueError | RequestException | AttributeError

section \<open>KeyNormalizer\<close>

definition normalize_nf :: "pyval \<Rightarrow> string" where
  "normalize_nf v =
     (if v = PNone \<or> (is_float v \<and> pd_isna v) then ''''
      else if is_int v then py_str v
      else if is_float v \<and> float_is_integer v then str_int (float_int v)
      else (let text = py_strip (py_str v)
            in if py_endswith text ''.0'' \<and> py_isdigit (take (length text - 2) text)
               then take (length text - 2) text
               else text))"

definition normalize_pedido :: "pyval \<Rightarrow> string" where
  "normalize_pedido v =
     (if v = PNone \<or> (is_float v \<and> pd_isna v) then ''''
      else if is_int v then py_str v
      else if is_float v \<and> float_is_integer v then str_int (float_int v)
      else (let text = py_strip (py_str v)
            in if py_endswith text ''.0'' \<and> py_isdigit (take (length text - 2) text)
               then take (length text - 2) text
               else text))"

definition normalize_cnpj :: "pyval \<Rightarrow> string" where
  "normalize_cnpj v =
     (if v = PNone \<or> (is_float v \<and> pd_isna v) then ''''
      else (let digits = filter py_isdigit_chr (py_str v)
            in if digits = [] then ''''
               else if length digits < 14 then py_zfill digits 14
               else digits))"

section \<open>Batcher\<close>

text \<open>
  \<^verbatim>\<open>range(0, n, step)\<close>: a zero step raises \<^verbatim>\<open>ValueError\<close>, a negative step
  gives the empty range (the stop \<open>n\<close> is a length), a positive step the multiples of the
  step below \<open>n\<close>.
\<close>

definition py_range_from0 :: "nat \<Rightarrow> int \<Rightarrow> error + nat list" where
  "py_range_from0 n step =
     (if step = 0 then Inl ValueError
      else if step < 0 then Inr []
      else Inr (map (\<lambda>k. k * nat step) [0 ..< (n + nat step - 1) div nat step]))"

text \<open>\<^verbatim>\<open>items[i:i + size]\<close> for \<open>0 \<le> i\<close> and \<open>0 < size\<close>.\<close>

definition py_slice_len :: "'a list \<Rightarrow> nat \<Rightarrow> int \<Rightarrow> 'a list" where
  "py_slice_len items i sz = take (nat sz) (drop i items)"

text \<open>The generator \<^verbatim>\<open>chunked\<close>, run to its end: the list of the chunks it yields.\<close>

definition chunked :: "'a list \<Rightarrow> int \<Rightarrow> error + 'a list list" where
  "chunked items sz =
     (case py_range_from0 (length items) sz of
        Inl e \<Rightarrow> Inl e
      | Inr idxs \<Rightarrow> Inr (map (\<lambda>i. py_slice_len items i sz) idxs))"

section \<open>Occurrence records and the remote service\<close>

text \<open>
  A JSON object of the service is a record whose fields are the keys the code reads; a
  key that is absent or \<^verbatim>\<open>null\<close> is \<open>None\<close> (\<^verbatim>\<open>dict.get\<close> gives \<^verbatim>\<open>None\<close>
  for both), and a scalar is a \<open>pyval\<close>.
\<close>

record tipo_ocorrencia =
  codigo :: pyval

record pedido_obj =
  numero :: pyval

record embarque_obj =
  embarque_pedido :: "pedido_obj option"

record item =
  tipoOcorrencia :: "tipo_ocorrencia option"
  pedido :: "pedido_obj option"
  embarque :: "embarque_obj option"

text \<open>
  The code reads \<^verbatim>\<open>totalPages\<close> through \<^verbatim>\<open>int(payload.get("totalPages", 0) or 0)\<close>
  alone: the field is absent, null or otherwise false (\<open>TP_missing\<close>), or a value that
  \<^verbatim>\<open>int\<close> turns into an integer (\<open>TP_int\<close>), or a value on which \<^verbatim>\<open>int\<close>
  raises (\<open>TP_invalid\<close>: text that is no number, a list, an object). The field
  \<^verbatim>\<open>respostas\<close>, when it is there, is a list of occurrence objects.
\<close>

datatype tp_field = TP_missing | TP_int int | TP_invalid

record payload =
  respostas :: "item list option"
  totalPages :: tp_field

text \<open>What \<^verbatim>\<open>response.json()\<close> gives for a body that parses: a JSON object, or JSON
  of another shape (a list, null, a number, a string).\<close>

datatype json_doc = Obj payload | Not_object

text \<open>The literal \<^verbatim>\<open>{"respostas": []}\<close>.\<close>

definition empty_payload :: payload where
  "empty_payload = \<lparr>respostas = Some [], totalPages = TP_missing\<rparr>"

text \<open>\<^verbatim>\<open>payload.get("respostas", []) or []\<close>.\<close>

definition respostas_of :: "payload \<Rightarrow> item list" where
  "respostas_of p = (case respostas p of None \<Rightarrow> [] | Some rs \<Rightarrow> rs)"

text \<open>\<^verbatim>\<open>int(payload.get("totalPages", 0) or 0)\<close>; \<^verbatim>\<open>int\<close> raises
  \<^verbatim>\<open>ValueError\<close> (or \<^verbatim>\<open>TypeError\<close>, not told apart here).\<close>

definition total_pages_of :: "payload \<Rightarrow> error + int" where
  "total_pages_of p =
     (case totalPages p of TP_missing \<Rightarrow> Inr 0 | TP_int n \<Rightarrow> Inr n | TP_invalid \<Rightarrow> Inl ValueError)"

text \<open>\<^verbatim>\<open>(item.get("tipoOcorrencia") or {}).get("codigo")\<close>, then \<^verbatim>\<open>str(codigo).strip()\<close>.\<close>

definition extract_codigo :: "item \<Rightarrow> string" where
  "extract_codigo it =
     (let c = (case tipoOcorrencia it of None \<Rightarrow> PNone | Some t \<Rightarrow> codigo t)
      in if c = PNone then '''' else py_strip (py_str c))"

definition extract_pedido :: "item \<Rightarrow> string" where
  "extract_pedido it =
     (let p = (case pedido it of None \<Rightarrow> PNone | Some po \<Rightarrow> numero po);
          p' = (if \<not> py_truthy p
                then (case embarque it of
                        None \<Rightarrow> PNone
                      | Some e \<Rightarrow> (case embarque_pedido e of None \<Rightarrow> PNone | Some po \<Rightarrow> numero po))
                else p)
      in normalize_pedido p')"

definition ENTREGUE_CODES :: "string set" where
  "ENTREGUE_CODES = {''1'', ''2'', ''37'', ''999''}"

definition CANCELADO_CODES :: "string set" where
  "CANCELADO_CODES = {''25'', ''102'', ''203'', ''303'', ''325'', ''327''}"

text \<open>\<^verbatim>\<open>",".join(sorted(ENTREGUE_CODES | CANCELADO_CODES, key=int))\<close>.\<close>

definition ALL_CODES :: string where
  "ALL_CODES = ''1,2,25,37,102,203,303,325,327,999''"

text \<open>
  The remote service is outside the program. What one HTTP call does is given by the
  environment: a call reads and changes a world \<open>'w\<close> and has one of the outcomes the
  code distinguishes. \<open>Get_raises\<close>: \<^verbatim>\<open>session.get\<close> itself raises a
  \<^verbatim>\<open>requests.RequestException\<close> (connection error, timeout, the transport's retries
  used up). \<open>Response status body\<close>: a response came back; \<^verbatim>\<open>raise_for_status()\<close>
  raises \<^verbatim>\<open>HTTPError\<close> on a status from 400 to 599, and \<^verbatim>\<open>response.json()\<close>
  raises \<^verbatim>\<open>requests.JSONDecodeError\<close> on a \<open>Malformed\<close> body; both are
  \<^verbatim>\<open>RequestException\<close>s. A body that parses is returned as it is, object or not. A login either fails (any exception inside
  \<^verbatim>\<open>authenticate\<close>) or answers with the token field of its body.
\<close>

datatype body = Json json_doc | Malformed

datatype get_outcome = Get_raises | Response int body

datatype login_outcome = Login_fails | Login_token "string option"

type_synonym params = "(string \<times> pyval) list"

record 'w env =
  http_get :: "'w \<Rightarrow> string option \<Rightarrow> params \<Rightarrow> get_outcome \<times> 'w"
  http_login :: "'w \<Rightarrow> login_outcome \<times> 'w"

text \<open>What the run does to the outside, in order: the trace.\<close>

datatype event = Ev_login | Ev_get "string option" params | Ev_sleep int

record 'w api =
  world :: 'w
  token :: "string option"
  trace :: "event list"

text \<open>\<^verbatim>\<open>bool(self.token)\<close>.\<close>

definition token_truthy :: "string option \<Rightarrow> bool" where
  "token_truthy t = (case t of None \<Rightarrow> False | Some s \<Rightarrow> s \<noteq> [])"

definition authenticate :: "'w env \<Rightarrow> 'w api \<Rightarrow> bool \<times> 'w api" where
  "authenticate e st =
     (case http_login e (world st) of
        (out, w') \<Rightarrow>
          (let st1 = st\<lparr>world := w', trace := trace st @ [Ev_login]\<rparr>
           in case out of
                Login_fails \<Rightarrow> (False, st1)
              | Login_token t \<Rightarrow> (token_truthy t, st1\<lparr>token := t\<rparr>)))"

text \<open>\<^verbatim>\<open>ConfirmaFacilAPI()\<close>: no token, then one login whose result is not looked at.\<close>

definition api_init :: "'w env \<Rightarrow> 'w \<Rightarrow> 'w api" where
  "api_init e w = snd (authenticate e \<lparr>world = w, token = None, trace = []\<rparr>)"

text \<open>
  The loop of \<^verbatim>\<open>_request\<close> over the attempts still to make; \<open>hdr\<close> is
  \<^verbatim>\<open>headers["Authorization"]\<close>. A raise of \<^verbatim>\<open>session.get\<close> is outside the
  \<^verbatim>\<open>try\<close> and leaves the function.
\<close>

fun request_loop ::
  "'w env \<Rightarrow> params \<Rightarrow> int \<Rightarrow> int list \<Rightarrow> string option \<Rightarrow> 'w api \<Rightarrow> (error + json_doc) \<times> 'w api"
where
  "request_loop e ps retries [] hdr st = (Inr (Obj empty_payload), st)"
| "request_loop e ps retries (attempt # rest) hdr st =
     (case http_get e (world st) hdr ps of
        (out, w') \<Rightarrow>
          (let st1 = st\<lparr>world := w', trace := trace st @ [Ev_get hdr ps]\<rparr>
           in case out of
                Get_raises \<Rightarrow> (Inl RequestException, st1)
              | Response status b \<Rightarrow>
                  if status = 401 then
                    (case authenticate e st1 of
                       (ok, st2) \<Rightarrow>
                         if \<not> ok then (Inr (Obj empty_payload), st2)
                         else request_loop e ps retries rest (token st2) st2)
                  else if status = 404 then (Inr (Obj empty_payload), st1)
                  else if (400 \<le> status \<and> status < 600) \<or> b = Malformed then
                    (if attempt = retries then (Inr (Obj empty_payload), st1)
                     else request_loop e ps retries rest hdr
                            (st1\<lparr>trace := trace st1 @ [Ev_sleep (2 * attempt)]\<rparr>))
                  else (case b of Json d \<Rightarrow> (Inr d, st1) | Malformed \<Rightarrow> (Inr (Obj empty_payload), st1))))"

text \<open>\<^verbatim>\<open>_request(params, retries)\<close>: the attempts are \<^verbatim>\<open>range(1, retries + 1)\<close>.\<close>

definition request :: "'w env \<Rightarrow> params \<Rightarrow> int \<Rightarrow> 'w api \<Rightarrow> (error + json_doc) \<times> 'w api" where
  "request e ps retries st = request_loop e ps retries [1..retries] (token st) st"

text \<open>The queries of the GETs of a trace, in order.\<close>

fun get_params :: "event list \<Rightarrow> params list" where
  "get_params [] = []"
| "get_params (Ev_get h ps # evs) = ps # get_params evs"
| "get_params (Ev_login # evs) = get_params evs"
| "get_params (Ev_sleep d # evs) = get_params evs"

section \<open>StatusClassifier and Resolver\<close>

text \<open>
  The loop \<^verbatim>\<open>for item in ocorrencias\<close> of the invoice/company variant, on the two
  flags \<open>(entregue, cancelado)\<close>, and the \<^verbatim>\<open>if/elif/else\<close> that turns the flags
  into a status, with the variant's default.
\<close>

fun scan_codes :: "item list \<Rightarrow> bool \<times> bool \<Rightarrow> bool \<times> bool" where
  "scan_codes [] flags = flags"
| "scan_codes (it # its) (entregue, cancelado) =
     (let cod = extract_codigo it
      in scan_codes its
           (if cod \<in> ENTREGUE_CODES then True else entregue,
            if cod \<in> CANCELADO_CODES then True else cancelado))"

definition status_of_flags :: "string \<Rightarrow> bool \<times> bool \<Rightarrow> string" where
  "status_of_flags dflt flags =
     (if fst flags then ''ENTREGUE'' else if snd flags then ''CANCELADO'' else dflt)"

text \<open>\<^verbatim>\<open>fetch_ocorrencias(nf, cnpj)\<close> of the invoice/company variant;
  \<^verbatim>\<open>payload.get\<close> raises \<^verbatim>\<open>AttributeError\<close> on JSON that is not an object.\<close>

definition fetch_ocorrencias_cobranca ::
  "'w env \<Rightarrow> string \<Rightarrow> string \<Rightarrow> 'w api \<Rightarrow> (error + item list) \<times> 'w api" where
  "fetch_ocorrencias_cobranca e nf cnpj st =
     (case request e [(''numero'', PStr nf), (''cnpjEmbarcador'', PStr cnpj),
                      (''codigoOcorrencia'', PStr ALL_CODES)] 3 st of
        (Inl err, st') \<Rightarrow> (Inl err, st')
      | (Inr Not_object, st') \<Rightarrow> (Inl AttributeError, st')
      | (Inr (Obj p), st') \<Rightarrow> (Inr (respostas_of p), st'))"

text \<open>
  A dict is an association list in insertion order; \<^verbatim>\<open>d[k] = v\<close> is
  \<open>AList.update\<close> (the value replaced in place, or the pair appended).
  The loop \<^verbatim>\<open>for nf, cnpj in pares\<close> of \<^verbatim>\<open>resolver_status\<close>:
\<close>

fun resolver_loop_cobranca ::
  "'w env \<Rightarrow> (string \<times> string) list \<Rightarrow> ((string \<times> string) \<times> string) list \<Rightarrow> 'w api
     \<Rightarrow> (error + ((string \<times> string) \<times> string) list) \<times> 'w api" where
  "resolver_loop_cobranca e [] status_map st = (Inr status_map, st)"
| "resolver_loop_cobranca e ((nf, cnpj) # rest) status_map st =
     (case fetch_ocorrencias_cobranca e nf cnpj st of
        (Inl err, st') \<Rightarrow> (Inl err, st')
      | (Inr ocorrencias, st') \<Rightarrow>
          resolver_loop_cobranca e rest
            (AList.update (nf, cnpj) (status_of_flags ''-'' (scan_codes ocorrencias (False, False)))
               status_map) st')"

definition resolver_status_cobranca ::
  "'w env \<Rightarrow> (string \<times> string) list \<Rightarrow> 'w
     \<Rightarrow> (error + ((string \<times> string) \<times> string) list) \<times> 'w api" where
  "resolver_status_cobranca e pares w = resolver_loop_cobranca e pares [] (api_init e w)"

subsection \<open>The order-number variant\<close>

definition PAGE_SIZE :: int where
  "PAGE_SIZE = 1000"

definition SUBLOTE_SIZE :: int where
  "SUBLOTE_SIZE = 20"

text \<open>
  The query of \<^verbatim>\<open>fetch_ocorrencias(pedidos)\<close> for a page; \<open>de\<close> and \<open>ate\<close> are the
  two dates formatted from the clock (\<^verbatim>\<open>datetime.now()\<close>).
\<close>

definition page_params :: "string \<Rightarrow> string \<Rightarrow> string list \<Rightarrow> int \<Rightarrow> params" where
  "page_params de ate pedidos page =
     [(''pedido'', PStr (py_join '','' pedidos)), (''page'', PInt page), (''size'', PInt PAGE_SIZE),
      (''de'', PStr de), (''ate'', PStr ate), (''codigoOcorrencia'', PStr ALL_CODES),
      (''tipoData'', PStr ''OCORRENCIA'')]"

text \<open>The loop \<^verbatim>\<open>for page in range(1, total_pages)\<close>, with \<^verbatim>\<open>params["page"] = page\<close>.\<close>

fun fetch_pages ::
  "'w env \<Rightarrow> params \<Rightarrow> int list \<Rightarrow> item list \<Rightarrow> 'w api \<Rightarrow> (error + item list) \<times> 'w api" where
  "fetch_pages e ps [] acc st = (Inr acc, st)"
| "fetch_pages e ps (page # rest) acc st =
     (let ps' = AList.update ''page'' (PInt page) ps
      in case request e ps' 3 st of
           (Inl err, st') \<Rightarrow> (Inl err, st')
         | (Inr Not_object, st') \<Rightarrow> (Inl AttributeError, st')
         | (Inr (Obj page_payload), st') \<Rightarrow>
             fetch_pages e ps' rest (acc @ respostas_of page_payload) st')"

definition fetch_ocorrencias_preventivos ::
  "'w env \<Rightarrow> string \<Rightarrow> string \<Rightarrow> string list \<Rightarrow> 'w api \<Rightarrow> (error + item list) \<times> 'w api" where
  "fetch_ocorrencias_preventivos e de ate pedidos st =
     (let ps = page_params de ate pedidos 0
      in case request e ps 3 st of
           (Inl err, st') \<Rightarrow> (Inl err, st')
         | (Inr Not_object, st') \<Rightarrow> (Inl AttributeError, st')
         | (Inr (Obj p), st') \<Rightarrow>
             (case total_pages_of p of
                Inl err \<Rightarrow> (Inl err, st')
              | Inr total_pages \<Rightarrow> fetch_pages e ps [1..total_pages - 1] (respostas_of p) st'))"

text \<open>
  \<^verbatim>\<open>flags\<close> maps an order number to its pair \<open>(entregue, cancelado)\<close>. The loop
  \<^verbatim>\<open>for item in ocorrencias\<close> gives each record to the order number it carries, when
  that is not empty and is a key of \<^verbatim>\<open>flags\<close>.
\<close>

fun scan_items :: "item list \<Rightarrow> (string \<times> bool \<times> bool) list \<Rightarrow> (string \<times> bool \<times> bool) list" where
  "scan_items [] flags = flags"
| "scan_items (it # its) flags =
     (let ped = extract_pedido it; cod = extract_codigo it
      in if ped = [] \<or> map_of flags ped = None then scan_items its flags
         else scan_items its
                (let f1 = (if cod \<in> ENTREGUE_CODES
                           then AList.map_entry ped (\<lambda>(en, ca). (True, ca)) flags else flags)
                 in if cod \<in> CANCELADO_CODES
                    then AList.map_entry ped (\<lambda>(en, ca). (en, True)) f1 else f1))"

text \<open>
  The loop \<^verbatim>\<open>for sublote in chunked(pedidos, SUBLOTE_SIZE)\<close>; \<open>clock i\<close> is the pair
  of dates the \<open>i\<close>-th call of \<^verbatim>\<open>fetch_ocorrencias\<close> reads from the clock.
\<close>

fun resolver_batches ::
  "'w env \<Rightarrow> (nat \<Rightarrow> string \<times> string) \<Rightarrow> nat \<Rightarrow> string list list \<Rightarrow> (string \<times> bool \<times> bool) list
     \<Rightarrow> 'w api \<Rightarrow> (error + (string \<times> bool \<times> bool) list) \<times> 'w api" where
  "resolver_batches e clock i [] flags st = (Inr flags, st)"
| "resolver_batches e clock i (sublote # rest) flags st =
     (case fetch_ocorrencias_preventivos e (fst (clock i)) (snd (clock i)) sublote st of
        (Inl err, st') \<Rightarrow> (Inl err, st')
      | (Inr ocorrencias, st') \<Rightarrow>
          resolver_batches e clock (Suc i) rest (scan_items ocorrencias flags) st')"

text \<open>\<^verbatim>\<open>{pedido: {"entregue": False, "cancelado": False} for pedido in pedidos}\<close>.\<close>

definition initial_flags :: "string list \<Rightarrow> (string \<times> bool \<times> bool) list" where
  "initial_flags pedidos = fold (\<lambda>p d. AList.update p (False, False) d) pedidos []"

text \<open>The loop \<^verbatim>\<open>for pedido, info in flags.items()\<close> that fills \<^verbatim>\<open>status_map\<close>.\<close>

definition status_map_of_flags :: "(string \<times> bool \<times> bool) list \<Rightarrow> (string \<times> string) list" where
  "status_map_of_flags flags =
     fold (\<lambda>(p, info) sm. AList.update p (status_of_flags ''DESPACHADO'' info) sm) flags []"

definition resolver_status_preventivos ::
  "'w env \<Rightarrow> (nat \<Rightarrow> string \<times> string) \<Rightarrow> string list \<Rightarrow> 'w
     \<Rightarrow> (error + (string \<times> string) list) \<times> 'w api" where
  "resolver_status_preventivos e clock pedidos w =
     (let st0 = api_init e w; flags = initial_flags pedidos
      in case chunked pedidos SUBLOTE_SIZE of
           Inl err \<Rightarrow> (Inl err, st0)
         | Inr sublotes \<Rightarrow>
             (case resolver_batches e clock 0 sublotes flags st0 of
                (Inl err, st') \<Rightarrow> (Inl err, st')
              | (Inr flags', st') \<Rightarrow> (Inr (status_map_of_flags flags'), st')))"

section \<open>The run: from the rows of the sheet to the statuses written back\<close>

text \<open>
  The sheet is read and written through the Google client, which is outside the program:
  \<open>values\<close> is what the read returns (a list of rows, each a list of cells), and the
  result of \<^verbatim>\<open>main\<close> is the list \<^verbatim>\<open>statuses\<close> it hands to
  \<^verbatim>\<open>update_status_in_sheet\<close> (\<open>None\<close> when it returns before that). The checks of
  the credentials and of the configuration are taken as passed.
\<close>

text \<open>\<^verbatim>\<open>row[i] if len(row) > i else ""\<close>.\<close>

definition cell :: "pyval list \<Rightarrow> nat \<Rightarrow> pyval" where
  "cell row i = (if i < length row then row ! i else PStr [])"

text \<open>\<^verbatim>\<open>list(dict.fromkeys(xs))\<close>: the keys in the order of their first occurrence.\<close>

fun fromkeys_into :: "'a list \<Rightarrow> 'a list \<Rightarrow> 'a list" where
  "fromkeys_into [] d = d"
| "fromkeys_into (k # ks) d = fromkeys_into ks (if k \<in> set d then d else d @ [k])"

definition unique_keys :: "'a list \<Rightarrow> 'a list" where
  "unique_keys xs = fromkeys_into xs []"

subsection \<open>Invoice/company variant\<close>

definition has_header_cobranca :: "pyval list list \<Rightarrow> bool" where
  "has_header_cobranca values =
     (case values of
        [] \<Rightarrow> False
      | row # rest \<Rightarrow>
          (let header_nf = (if 0 < length row then py_lower (py_strip (py_str (row ! 0))) else []);
               header_cnpj = (if 1 < length row then py_lower (py_strip (py_str (row ! 1))) else [])
           in header_nf \<in> {''nf'', ''nota'', ''nota fiscal'', ''numero''}
              \<or> header_cnpj \<in> {''cnpj'', ''estabelecimento''}))"

definition load_inputs_from_sheet ::
  "pyval list list \<Rightarrow> (string \<times> string) list \<times> pyval list list \<times> bool" where
  "load_inputs_from_sheet values =
     (if values = [] then ([], [], False)
      else (let has_header = has_header_cobranca values;
                start_index = (if has_header then 1 else 0);
                pares = map (\<lambda>row. (normalize_nf (cell row 0), normalize_cnpj (cell row 1)))
                          (drop start_index values)
            in (pares, values, has_header)))"

text \<open>The loop of \<^verbatim>\<open>main\<close> that fills \<^verbatim>\<open>statuses\<close>.\<close>

definition build_statuses_cobranca ::
  "(string \<times> string) list \<Rightarrow> ((string \<times> string) \<times> string) list \<Rightarrow> string list" where
  "build_statuses_cobranca pares status_map =
     map (\<lambda>(nf, cnpj). if nf = [] \<or> cnpj = [] then []
                         else (case map_of status_map (nf, cnpj) of None \<Rightarrow> ''-'' | Some s \<Rightarrow> s))
       pares"

definition main_cobranca :: "'w env \<Rightarrow> pyval list list \<Rightarrow> 'w \<Rightarrow> error + string list option" where
  "main_cobranca e values w =
     (case load_inputs_from_sheet values of
        (pares, raw_values, has_header) \<Rightarrow>
          if raw_values = [] then Inr None
          else (let pares_validos = filter (\<lambda>(nf, cnpj). nf \<noteq> [] \<and> cnpj \<noteq> []) pares;
                    pares_unicos = unique_keys pares_validos
                in case fst (resolver_status_cobranca e pares_unicos w) of
                     Inl err \<Rightarrow> Inl err
                   | Inr status_map \<Rightarrow> Inr (Some (build_statuses_cobranca pares status_map))))"

subsection \<open>Order-number variant\<close>

definition load_pedidos_from_sheet :: "pyval list list \<Rightarrow> string list \<times> pyval list \<times> bool" where
  "load_pedidos_from_sheet values =
     (if values = [] then ([], [], False)
      else (let first_col = map (\<lambda>row. if row \<noteq> [] then row ! 0 else PStr []) values;
                has_header = (py_lower (py_strip (py_str (first_col ! 0))) \<in> {''pedido'', ''pedidos''});
                start_index = (if has_header then 1 else 0);
                pedidos = map normalize_pedido (drop start_index first_col);
                pedidos' = filter (\<lambda>p. p \<noteq> [] \<and> py_lower (py_strip p) \<noteq> ''nan'') pedidos
            in (pedidos', first_col, has_header)))"

definition build_statuses_preventivos :: "pyval list \<Rightarrow> (string \<times> string) list \<Rightarrow> string list" where
  "build_statuses_preventivos raw status_map =
     map (\<lambda>v. let ped = normalize_pedido v
              in if ped = [] then []
                 else (case map_of status_map ped of None \<Rightarrow> ''DESPACHADO'' | Some s \<Rightarrow> s))
       raw"

definition main_preventivos ::
  "'w env \<Rightarrow> (nat \<Rightarrow> string \<times> string) \<Rightarrow> pyval list list \<Rightarrow> 'w \<Rightarrow> error + string list option" where
  "main_preventivos e clock values w =
     (case load_pedidos_from_sheet values of
        (pedidos_list, raw_values, has_header) \<Rightarrow>
          if raw_values = [] then Inr None
          else (let pedidos_unicos = unique_keys pedidos_list
                in case fst (resolver_status_preventivos e clock pedidos_unicos w) of
                     Inl err \<Rightarrow> Inl err
                   | Inr status_map \<Rightarrow>
                       Inr (Some (build_statuses_preventivos
                                    (drop (if has_header then 1 else 0) raw_values) status_map))))"

section \<open>Scenarios\<close>

text \<open>Concrete environments and records to run the embedded code on.\<close>

definition item_with_code :: "string \<Rightarrow> item" where
  "item_with_code c = \<lparr>tipoOcorrencia = Some \<lparr>codigo = PStr c\<rparr>, pedido = None, embarque = None\<rparr>"

text \<open>A record of order \<open>p\<close> with occurrence code \<open>c\<close>.\<close>

definition item_of_order :: "string \<Rightarrow> string \<Rightarrow> item" where
  "item_of_order p c =
     \<lparr>tipoOcorrencia = Some \<lparr>codigo = PStr c\<rparr>, pedido = Some \<lparr>numero = PStr p\<rparr>, embarque = None\<rparr>"

definition sample_payload :: payload where
  "sample_payload = \<lparr>respostas = Some [item_with_code ''1''], totalPages = TP_int 1\<rparr>"

text \<open>The network is down: every \<^verbatim>\<open>session.get\<close> raises; the login had worked.\<close>

definition env_network_down :: "unit env" where
  "env_network_down =
     \<lparr>http_get = (\<lambda>w h p. (Get_raises, w)), http_login = (\<lambda>w. (Login_token (Some ''tok''), w))\<rparr>"

text \<open>The service answers every GET with status 500 and a body that does not parse.\<close>

definition env_server_error :: "unit env" where
  "env_server_error =
     \<lparr>http_get = (\<lambda>w h p. (Response 500 Malformed, w)),
      http_login = (\<lambda>w. (Login_token (Some ''tok''), w))\<rparr>"

text \<open>
  The world counts the GETs made. The first GET is answered 401, the second and the
  third 500, every later one 200 with \<open>sample_payload\<close>; a login always gives the token
  \<^verbatim>\<open>new\<close>.
\<close>

definition env_expired_then_errors :: "nat env" where
  "env_expired_then_errors =
     \<lparr>http_get = (\<lambda>w h p.
         (if w = 0 then Response 401 (Json (Obj empty_payload))
          else if w = 1 \<or> w = 2 then Response 500 Malformed
          else Response 200 (Json (Obj sample_payload)), Suc w)),
      http_login = (\<lambda>w. (Login_token (Some ''new''), w))\<rparr>"

text \<open>The first GET is answered 401, every later one 200 with \<open>sample_payload\<close>.\<close>

definition env_expired_once :: "nat env" where
  "env_expired_once =
     \<lparr>http_get = (\<lambda>w h p.
         (if w = 0 then Response 401 (Json (Obj empty_payload))
          else Response 200 (Json (Obj sample_payload)), Suc w)),
      http_login = (\<lambda>w. (Login_token (Some ''new''), w))\<rparr>"

text \<open>The first GET is answered 500, the second 401, every later one 200 with
  \<open>sample_payload\<close>.\<close>

definition env_error_then_expired :: "nat env" where
  "env_error_then_expired =
     \<lparr>http_get = (\<lambda>w h p.
         (if w = 0 then Response 500 Malformed
          else if w = 1 then Response 401 (Json (Obj empty_payload))
          else Response 200 (Json (Obj sample_payload)), Suc w)),
      http_login = (\<lambda>w. (Login_token (Some ''new''), w))\<rparr>"

text \<open>Every GET is answered 401 and no login succeeds.\<close>

definition env_expired_login_fails :: "unit env" where
  "env_expired_login_fails =
     \<lparr>http_get = (\<lambda>w h p. (Response 401 (Json (Obj empty_payload)), w)),
      http_login = (\<lambda>w. (Login_fails, w))\<rparr>"

text \<open>
  A service with three pages for any query: page 0 holds one record and reports three
  pages, the GET of page 1 raises (a timeout), page 2 holds one record.
\<close>

definition env_page_one_down :: "unit env" where
  "env_page_one_down =
     \<lparr>http_get = (\<lambda>w h ps.
         (case map_of ps ''page'' of
            Some (PInt i) \<Rightarrow>
              if i = 0
              then Response 200 (Json (Obj \<lparr>respostas = Some [item_of_order ''555'' ''25''],
                                            totalPages = TP_int 3\<rparr>))
              else if i = 1 then Get_raises
              else Response 200 (Json (Obj \<lparr>respostas = Some [item_of_order ''555'' ''1''],
                                            totalPages = TP_int 3\<rparr>))
          | _ \<Rightarrow> Response 200 (Json (Obj sample_payload)), w)),
      http_login = (\<lambda>w. (Login_token (Some ''tok''), w))\<rparr>"

section \<open>The canonical forms of the specification\<close>

text \<open>
  The specification's canonical forms, written from its words to compare the normalizers
  with: a decimal-integer string (decimal digits, after an optional minus sign), and a
  company id (exactly 14 decimal digits).
\<close>

definition dec_chr :: "char \<Rightarrow> bool" where
  "dec_chr c = (c \<in> set ''0123456789'')"

definition spec_decimal_integer :: "string \<Rightarrow> bool" where
  "spec_decimal_integer s =
     (case s of
        [] \<Rightarrow> False
      | c # r \<Rightarrow> if c = CHR ''-'' then r \<noteq> [] \<and> list_all dec_chr r else list_all dec_chr s)"

definition spec_company_id :: "string \<Rightarrow> bool" where
  "spec_company_id s = (length s = 14 \<and> list_all dec_chr s)"

section \<open>Properties of the key normalizers\<close>

lemma digit_not_space: "py_isdigit_chr c \<Longrightarrow> \<not> py_isspace_chr c"
  by (auto simp: py_isdigit_chr_def py_isspace_chr_def Let_def)

lemma digit_not_dot: "py_isdigit_chr c \<Longrightarrow> c \<noteq> CHR ''.''"
  by (auto simp: py_isdigit_chr_def Let_def)

lemma digit_not_sign: "py_isdigit_chr c \<Longrightarrow> c \<noteq> CHR ''+'' \<and> c \<noteq> CHR ''-''"
  by (auto simp: py_isdigit_chr_def Let_def)

lemma zero_isdigit: "py_isdigit_chr (CHR ''0'')"
  by (simp add: py_isdigit_chr_def)

lemma dec_isdigit: "dec_chr c \<Longrightarrow> py_isdigit_chr c"
  by (auto simp: dec_chr_def py_isdigit_chr_def)

lemma last_dropWhile: "dropWhile P xs \<noteq> [] \<Longrightarrow> last (dropWhile P xs) = last xs"
  by (induction xs) (auto split: if_splits)

lemma py_strip_fixed:
  assumes "s = [] \<or> (\<not> py_isspace_chr (hd s) \<and> \<not> py_isspace_chr (last s))"
  shows "py_strip s = s"
proof (cases "s = []")
  case True then show ?thesis by (simp add: py_strip_def)
next
  case False
  with assms have h: "\<not> py_isspace_chr (hd s)" and l: "\<not> py_isspace_chr (last s)" by auto
  have "dropWhile py_isspace_chr s = s" using h False by (cases s) auto
  moreover have "dropWhile py_isspace_chr (rev s) = rev s"
    using l False by (cases "rev s") (auto simp: last_rev[symmetric] hd_rev)
  ultimately show ?thesis by (simp add: py_strip_def)
qed

lemma py_strip_ends:
  "py_strip s = [] \<or> (\<not> py_isspace_chr (hd (py_strip s)) \<and> \<not> py_isspace_chr (last (py_strip s)))"
proof (cases "py_strip s = []")
  case True then show ?thesis by simp
next
  case False
  define u where "u = dropWhile py_isspace_chr s"
  define w where "w = dropWhile py_isspace_chr (rev u)"
  have t: "py_strip s = rev w" by (simp add: py_strip_def u_def w_def)
  with False have w: "w \<noteq> []" by simp
  then have u: "u \<noteq> []" by (auto simp: w_def)
  have "\<not> py_isspace_chr (hd w)" using w unfolding w_def by (rule hd_dropWhile)
  then have l: "\<not> py_isspace_chr (last (py_strip s))" using w by (simp add: t last_rev)
  have "last w = last (rev u)" using w unfolding w_def by (rule last_dropWhile)
  then have "hd (py_strip s) = hd u" using w u by (simp add: t hd_rev last_rev)
  moreover have "\<not> py_isspace_chr (hd u)" using u unfolding u_def by (rule hd_dropWhile)
  ultimately show ?thesis using l by simp
qed

lemma py_strip_idem: "py_strip (py_strip s) = py_strip s"
  by (rule py_strip_fixed) (rule py_strip_ends)

lemma py_strip_digits: "list_all py_isdigit_chr d \<Longrightarrow> py_strip d = d"
proof (rule py_strip_fixed, cases "d = []")
  case True then show "d = [] \<or> (\<not> py_isspace_chr (hd d) \<and> \<not> py_isspace_chr (last d))" by simp
next
  case False
  assume a: "list_all py_isdigit_chr d"
  from False have "hd d \<in> set d" "last d \<in> set d" by simp_all
  with a have "py_isdigit_chr (hd d)" "py_isdigit_chr (last d)" by (simp_all add: list_all_iff)
  then show "d = [] \<or> (\<not> py_isspace_chr (hd d) \<and> \<not> py_isspace_chr (last d))"
    by (simp add: digit_not_space)
qed

lemma endswith_dot0: "py_endswith s ''.0'' \<Longrightarrow> CHR ''.'' \<in> set s"
proof -
  assume "py_endswith s ''.0''"
  then have "drop (length s - 2) s = ''.0''" by (auto simp: py_endswith_def numeral_2_eq_2)
  then have "CHR ''.'' \<in> set (drop (length s - 2) s)" by simp
  then show ?thesis by (rule in_set_dropD)
qed

lemma endswith_dot0_app: "py_endswith (d @ ''.0'') ''.0''"
  by (simp add: py_endswith_def)

lemma digits_no_dot0: "list_all py_isdigit_chr d \<Longrightarrow> \<not> py_endswith d ''.0''"
  using endswith_dot0 digit_not_dot by (fastforce simp: list_all_iff)

lemma nf_str: "normalize_nf (PStr s) =
   (if py_endswith (py_strip s) ''.0'' \<and> py_isdigit (take (length (py_strip s) - 2) (py_strip s))
    then take (length (py_strip s) - 2) (py_strip s) else py_strip s)"
  by (simp add: normalize_nf_def Let_def)

lemma nf_str_digits: "list_all py_isdigit_chr d \<Longrightarrow> normalize_nf (PStr d) = d"
  by (simp add: nf_str py_strip_digits digits_no_dot0)

lemma nf_str_noop:
  assumes "\<not> (py_endswith t ''.0'' \<and> py_isdigit (take (length t - 2) t))" and "py_strip t = t"
  shows "normalize_nf (PStr t) = t"
proof -
  have "normalize_nf (PStr t) =
     (if py_endswith t ''.0'' \<and> py_isdigit (take (length t - 2) t)
      then take (length t - 2) t else t)"
    using nf_str[of t] by (simp only: assms(2))
  also have "\<dots> = t" using assms(1) by (rule if_not_P)
  finally show ?thesis .
qed

lemma nf_str_idem: "normalize_nf (PStr (normalize_nf (PStr s))) = normalize_nf (PStr s)"
proof (cases "py_endswith (py_strip s) ''.0'' \<and> py_isdigit (take (length (py_strip s) - 2) (py_strip s))")
  case True
  then have "normalize_nf (PStr s) = take (length (py_strip s) - 2) (py_strip s)"
    and "list_all py_isdigit_chr (take (length (py_strip s) - 2) (py_strip s))"
    by (simp_all add: nf_str py_isdigit_def)
  then show ?thesis by (simp add: nf_str_digits)
next
  case False
  have r: "normalize_nf (PStr s) = py_strip s" unfolding nf_str using False by (rule if_not_P)
  show ?thesis unfolding r using False by (rule nf_str_noop) (rule py_strip_idem)
qed

lemma str_nat_chars: "set (str_nat n) \<subseteq> set ''0123456789''"
proof (induction n rule: str_nat.induct)
  case (1 n)
  have d: "\<And>k. k < 10 \<Longrightarrow> ''0123456789'' ! k \<in> set ''0123456789''"
    by (rule nth_mem) simp
  show ?case
  proof (cases "n < 10")
    case True
    then show ?thesis using d[of n] by (subst str_nat.simps) simp
  next
    case False
    have "n mod 10 < 10" by simp
    then have "''0123456789'' ! (n mod 10) \<in> set ''0123456789''" by (rule d)
    with False 1 show ?thesis by (subst str_nat.simps) simp
  qed
qed

lemma str_nat_nonempty: "str_nat n \<noteq> []"
  by (subst str_nat.simps) simp

lemma str_nat_digits: "list_all py_isdigit_chr (str_nat n)"
proof -
  have "\<forall>c \<in> set ''0123456789''. py_isdigit_chr c" by (simp add: py_isdigit_chr_def)
  with str_nat_chars[of n] show ?thesis by (auto simp: list_all_iff)
qed

lemma minus_not_space: "\<not> py_isspace_chr (CHR ''-'')"
  by (simp add: py_isspace_chr_def)

lemma nf_str_int: "normalize_nf (PStr (str_int n)) = str_int n"
proof (cases "n < 0")
  case False
  then show ?thesis by (simp add: str_int_def nf_str_digits str_nat_digits)
next
  case True
  define d where "d = str_nat (nat (- n))"
  have d: "list_all py_isdigit_chr d" "d \<noteq> []" by (simp_all add: d_def str_nat_digits str_nat_nonempty)
  have s: "str_int n = CHR ''-'' # d" using True by (simp add: str_int_def d_def)
  have "last d \<in> set d" using d by simp
  then have "\<not> py_isspace_chr (last d)" using d by (auto simp: list_all_iff digit_not_space)
  then have st: "py_strip (CHR ''-'' # d) = CHR ''-'' # d"
    using d by (intro py_strip_fixed) (simp add: minus_not_space)
  have "CHR ''.'' \<notin> set (CHR ''-'' # d)" using d digit_not_dot by (auto simp: list_all_iff)
  then have "\<not> py_endswith (CHR ''-'' # d) ''.0''" using endswith_dot0 by blast
  then show ?thesis by (simp add: nf_str s st)
qed

lemma nf_str_bool: "normalize_nf (PStr (py_str (PBool b))) = py_str (PBool b)"
  by (cases b) (simp_all add: nf_str py_strip_def py_isspace_chr_def py_endswith_def)

lemma nf_str_empty: "normalize_nf (PStr []) = []"
  by (simp add: nf_str py_strip_def py_endswith_def)

lemma nf_cases:
  "normalize_nf v = [] \<or> (\<exists>n. normalize_nf v = str_int n) \<or> (\<exists>b. normalize_nf v = py_str (PBool b))
     \<or> (\<exists>s. normalize_nf v = normalize_nf (PStr s))"
proof (cases v)
  case (PFloat f)
  then show ?thesis by (cases f) (auto simp: normalize_nf_def Let_def)
qed (auto simp: normalize_nf_def Let_def)

lemma normalize_nf_idem: "normalize_nf (PStr (normalize_nf v)) = normalize_nf v"
  using nf_cases[of v] by (auto simp: nf_str_empty nf_str_int nf_str_bool nf_str_idem simp del: py_str.simps)

lemma normalize_pedido_nf: "normalize_pedido v = normalize_nf v"
  by (simp add: normalize_pedido_def normalize_nf_def)

lemma filter_digits_id: "list_all py_isdigit_chr d \<Longrightarrow> filter py_isdigit_chr d = d"
  by (simp add: list_all_iff)

lemma zfill_digits:
  assumes "list_all py_isdigit_chr d" "d \<noteq> []"
  shows "py_zfill d w = replicate (w - length d) (CHR ''0'') @ d"
proof (cases d)
  case Nil with assms show ?thesis by simp
next
  case (Cons c r)
  with assms have "py_isdigit_chr c" by simp
  then have "c \<noteq> CHR ''+''" "c \<noteq> CHR ''-''" using digit_not_sign by blast+
  then show ?thesis using Cons by (simp add: py_zfill_def)
qed

lemma cnpj_str_digits14:
  assumes "list_all py_isdigit_chr d" "14 \<le> length d"
  shows "normalize_cnpj (PStr d) = d"
proof -
  from assms(2) have "d \<noteq> []" by auto
  then show ?thesis using assms by (simp add: normalize_cnpj_def filter_digits_id Let_def)
qed

lemma cnpj_char:
  "normalize_cnpj v =
     (if v = PNone \<or> v = PFloat Float_nan \<or> filter py_isdigit_chr (py_str v) = [] then ''''
      else replicate (14 - length (filter py_isdigit_chr (py_str v))) (CHR ''0'')
             @ filter py_isdigit_chr (py_str v))"
proof -
  have na: "(is_float v \<and> pd_isna v) = (v = PFloat Float_nan)"
    by (cases v rule: pd_isna.cases) simp_all
  define d where "d = filter py_isdigit_chr (py_str v)"
  have dd: "list_all py_isdigit_chr d" by (simp add: d_def list_all_iff)
  show ?thesis
    unfolding normalize_cnpj_def na Let_def d_def[symmetric]
    using zfill_digits[OF dd, of 14] by auto
qed

lemma cnpj_shape:
  "normalize_cnpj v = [] \<or> (list_all py_isdigit_chr (normalize_cnpj v) \<and> 14 \<le> length (normalize_cnpj v))"
  unfolding cnpj_char by (auto simp: list_all_iff zero_isdigit)

lemma normalize_cnpj_idem: "normalize_cnpj (PStr (normalize_cnpj v)) = normalize_cnpj v"
proof -
  from cnpj_shape[of v] show ?thesis
  proof
    assume "normalize_cnpj v = []"
    then show ?thesis by (simp add: normalize_cnpj_def)
  next
    assume "list_all py_isdigit_chr (normalize_cnpj v) \<and> 14 \<le> length (normalize_cnpj v)"
    then show ?thesis by (simp add: cnpj_str_digits14)
  qed
qed

lemma nf_fixed_shape:
  "py_strip (normalize_nf v) = normalize_nf v
   \<and> \<not> (py_endswith (normalize_nf v) ''.0''
          \<and> py_isdigit (take (length (normalize_nf v) - 2) (normalize_nf v)))"
proof -
  define r where "r = normalize_nf v"
  have idem: "normalize_nf (PStr r) = r" by (simp add: r_def normalize_nf_idem)
  have 1: "py_strip r = r"
  proof (cases "py_endswith (py_strip r) ''.0'' \<and> py_isdigit (take (length (py_strip r) - 2) (py_strip r))")
    case True
    then have "r = take (length (py_strip r) - 2) (py_strip r)" using idem by (simp add: nf_str)
    moreover from True have "list_all py_isdigit_chr (take (length (py_strip r) - 2) (py_strip r))"
      by (simp add: py_isdigit_def)
    ultimately have "list_all py_isdigit_chr r" by simp
    then show ?thesis by (rule py_strip_digits)
  next
    case False
    have "normalize_nf (PStr r) = py_strip r" unfolding nf_str using False by (rule if_not_P)
    with idem show ?thesis by metis
  qed
  have 2: "\<not> (py_endswith r ''.0'' \<and> py_isdigit (take (length r - 2) r))"
  proof
    assume a: "py_endswith r ''.0'' \<and> py_isdigit (take (length r - 2) r)"
    then have "normalize_nf (PStr r) = take (length r - 2) r" by (simp add: nf_str 1)
    with idem have "take (length r - 2) r = r" by metis
    then have "length r \<le> length r - 2" by (metis length_take min.cobounded1 min_def order_refl take_all_iff)
    moreover from a have "2 \<le> length r" by (simp add: py_endswith_def)
    ultimately show False by simp
  qed
  show ?thesis using 1 2 by (simp add: r_def)
qed

lemma nf_text_path:
  "normalize_nf (PFloat (Float_other r)) = normalize_nf (PStr r)"
  by (simp add: normalize_nf_def)

lemma nf_digits_dot0:
  assumes "py_isdigit d" "py_strip s = d @ ''.0''"
  shows "normalize_nf (PStr s) = d"
  using assms by (simp add: nf_str endswith_dot0_app)

lemma nf_digits_plain:
  assumes "py_isdigit (py_strip s)"
  shows "normalize_nf (PStr s) = py_strip s"
  using assms by (simp add: nf_str digits_no_dot0 py_isdigit_def)


lemma str_nat_dec: "list_all dec_chr (str_nat n)"
  unfolding list_all_iff dec_chr_def
proof
  fix c assume "c \<in> set (str_nat n)"
  with str_nat_chars[of n] show "c \<in> set ''0123456789''" by (rule subsetD)
qed

lemma str_int_decimal: "spec_decimal_integer (str_int n)"
proof (cases "n < 0")
  case True
  then show ?thesis
    by (simp add: spec_decimal_integer_def str_int_def str_nat_dec str_nat_nonempty)
next
  case False
  have "CHR ''-'' \<notin> set (str_nat (nat n))" using str_nat_chars[of "nat n"] by auto
  then have "hd (str_nat (nat n)) \<noteq> CHR ''-''"
    using str_nat_nonempty[of "nat n"] hd_in_set by metis
  with False show ?thesis
    using str_nat_nonempty[of "nat n"] str_nat_dec[of "nat n"]
    by (cases "str_nat (nat n)") (simp_all add: spec_decimal_integer_def str_int_def)
qed

lemma endswith_split: "py_endswith t ''.0'' \<Longrightarrow> t = take (length t - 2) t @ ''.0''"
proof -
  assume "py_endswith t ''.0''"
  then have "drop (length t - 2) t = ''.0''" by (auto simp: py_endswith_def numeral_2_eq_2)
  then show ?thesis by (metis append_take_drop_id)
qed

lemma nf_str_result:
  "normalize_nf (PStr s) = py_strip s
   \<or> (py_isdigit (normalize_nf (PStr s)) \<and> py_strip s = normalize_nf (PStr s) @ ''.0'')"
proof (cases "py_endswith (py_strip s) ''.0'' \<and> py_isdigit (take (length (py_strip s) - 2) (py_strip s))")
  case True
  then have r: "normalize_nf (PStr s) = take (length (py_strip s) - 2) (py_strip s)"
    by (simp add: nf_str)
  from True have e: "py_strip s = take (length (py_strip s) - 2) (py_strip s) @ ''.0''"
    by (intro endswith_split) (rule conjunct1)
  from True have d: "py_isdigit (take (length (py_strip s) - 2) (py_strip s))"
    by (rule conjunct2)
  show ?thesis unfolding r using d e by (intro disjI2 conjI)
next
  case False
  have "normalize_nf (PStr s) = py_strip s" unfolding nf_str using False by (rule if_not_P)
  then show ?thesis by simp
qed

lemma cnpj_empty_iff:
  "(normalize_cnpj v = []) = (v = PNone \<or> v = PFloat Float_nan \<or> filter py_isdigit_chr (py_str v) = [])"
  unfolding cnpj_char by simp

lemma cnpj_length14:
  "length (filter py_isdigit_chr (py_str v)) \<le> 14 \<Longrightarrow> normalize_cnpj v = [] \<or> length (normalize_cnpj v) = 14"
  unfolding cnpj_char by simp

lemma dec_chr_codes: "dec_chr c = (48 \<le> (of_char c :: nat) \<and> (of_char c :: nat) \<le> 57)"
proof
  assume "dec_chr c"
  then show "48 \<le> (of_char c :: nat) \<and> (of_char c :: nat) \<le> 57"
    by (auto simp: dec_chr_def)
next
  assume a: "48 \<le> (of_char c :: nat) \<and> (of_char c :: nat) \<le> 57"
  have e: "map char_of [48, 49, 50, 51, 52, 53, 54, 55, 56, 57 :: nat] = ''0123456789''"
    by code_simp
  from a have "(of_char c :: nat) \<in> set [48, 49, 50, 51, 52, 53, 54, 55, 56, 57]"
    by (simp only: list.set) (simp, arith)
  then have "char_of (of_char c :: nat) \<in> set (map char_of [48, 49, 50, 51, 52, 53, 54, 55, 56, 57 :: nat])"
    unfolding set_map by (rule imageI)
  then show "dec_chr c" unfolding e dec_chr_def by simp
qed

lemma isdigit_chr_codes:
  "py_isdigit_chr c = (dec_chr c \<or> (of_char c :: nat) \<in> {178, 179, 185})"
  unfolding dec_chr_codes py_isdigit_chr_def Let_def by simp

lemma cnpj_spec_id:
  assumes "v \<noteq> PNone" "v \<noteq> PFloat Float_nan" "filter py_isdigit_chr (py_str v) \<noteq> []"
    and "length (filter py_isdigit_chr (py_str v)) \<le> 14"
    and "list_all dec_chr (filter py_isdigit_chr (py_str v))"
  shows "spec_company_id (normalize_cnpj v)"
proof -
  have z: "dec_chr (CHR ''0'')" by (simp add: dec_chr_def)
  show ?thesis
    unfolding cnpj_char spec_company_id_def using assms z by (auto simp: list_all_iff)
qed

section \<open>C9: canonical forms\<close>

text \<open>
  C9 as stated fails. The invoice/order normalizer validates nothing: text that is not a
  number comes back stripped, not empty (\<^verbatim>\<open>normalize_nf("abc") = "abc"\<close>), and the
  company-id normalizer pads to 14 digits but never cuts, so 15 digits stay 15.
\<close>

theorem normalize_not_canonical_counterexample:
  "normalize_nf (PStr ''abc'') = ''abc''
   \<and> \<not> spec_decimal_integer ''abc''
   \<and> normalize_pedido (PStr ''12.5'') = ''12.5''
   \<and> \<not> spec_decimal_integer ''12.5''
   \<and> normalize_cnpj (PStr ''123456789012345'') = ''123456789012345''
   \<and> \<not> spec_company_id ''123456789012345''"
  by code_simp

text \<open>
  C9 (amended). A digit character is one that \<^verbatim>\<open>str.isdigit\<close> accepts: \<open>0\<close> to
  \<open>9\<close> and, among the code points below 256, the superscripts 178, 179 and 185. For
  every raw input value: \<^verbatim>\<open>None\<close> and NaN normalize to the empty string; an int and
  an integer-valued float normalize to the decimal-integer string of the integer; a bool
  (an int in Python) normalizes to \<^verbatim>\<open>True\<close> or \<^verbatim>\<open>False\<close>; any text, and a float
  that is not integer-valued through its text, normalizes to its stripped form, or to the
  stripped form without a final \<^verbatim>\<open>.0\<close> exactly when that is preceded by digit
  characters alone and at least one; so digits (with or without the \<^verbatim>\<open>.0\<close>) come
  out as the digits alone, and the result is always stripped and never digits followed by
  \<^verbatim>\<open>.0\<close>; \<^verbatim>\<open>normalize_pedido\<close> is the same function. The normalized company id
  is empty exactly when the value is \<^verbatim>\<open>None\<close>, NaN or its text has no digit
  character; otherwise it is the digit characters of the text, in their order, after
  \<open>14 - k\<close> zeros when there are \<open>k < 14\<close> of them and with nothing added or cut when
  there are 14 or more: digit characters alone, at least 14, exactly 14 when the text
  has at most 14, and exactly 14 decimal digits when moreover they are all among \<open>0\<close>
  to \<open>9\<close>.
\<close>

theorem normalize_canonical_forms:
  "normalize_nf PNone = [] \<and> normalize_nf (PFloat Float_nan) = []
   \<and> normalize_nf (PInt n) = str_int n
   \<and> normalize_nf (PFloat (Float_integral n r)) = str_int n
   \<and> spec_decimal_integer (str_int n)
   \<and> normalize_nf (PBool bl) = (if bl then ''True'' else ''False'')
   \<and> normalize_nf (PFloat (Float_other r)) = normalize_nf (PStr r)
   \<and> normalize_nf (PStr s)
       = (if py_endswith (py_strip s) ''.0''
             \<and> py_isdigit (take (length (py_strip s) - 2) (py_strip s))
          then take (length (py_strip s) - 2) (py_strip s) else py_strip s)
   \<and> (normalize_nf (PStr s) = py_strip s
        \<or> (py_isdigit (normalize_nf (PStr s)) \<and> py_strip s = normalize_nf (PStr s) @ ''.0''))
   \<and> (py_isdigit (py_strip s) \<longrightarrow> normalize_nf (PStr s) = py_strip s)
   \<and> (py_isdigit d \<and> py_strip s = d @ ''.0'' \<longrightarrow> normalize_nf (PStr s) = d)
   \<and> py_strip (normalize_nf v) = normalize_nf v
   \<and> \<not> (py_endswith (normalize_nf v) ''.0''
          \<and> py_isdigit (take (length (normalize_nf v) - 2) (normalize_nf v)))
   \<and> normalize_pedido v = normalize_nf v
   \<and> normalize_cnpj v
       = (if v = PNone \<or> v = PFloat Float_nan \<or> filter py_isdigit_chr (py_str v) = [] then []
          else replicate (14 - length (filter py_isdigit_chr (py_str v))) (CHR ''0'')
                 @ filter py_isdigit_chr (py_str v))
   \<and> (normalize_cnpj v = [])
        = (v = PNone \<or> v = PFloat Float_nan \<or> filter py_isdigit_chr (py_str v) = [])
   \<and> (normalize_cnpj v = []
        \<or> (list_all py_isdigit_chr (normalize_cnpj v) \<and> 14 \<le> length (normalize_cnpj v)))
   \<and> (length (filter py_isdigit_chr (py_str v)) \<le> 14
        \<longrightarrow> normalize_cnpj v = [] \<or> length (normalize_cnpj v) = 14)
   \<and> (v \<noteq> PNone \<and> v \<noteq> PFloat Float_nan \<and> filter py_isdigit_chr (py_str v) \<noteq> []
        \<and> length (filter py_isdigit_chr (py_str v)) \<le> 14
        \<and> list_all dec_chr (filter py_isdigit_chr (py_str v))
        \<longrightarrow> spec_company_id (normalize_cnpj v))
   \<and> py_isdigit_chr c = (dec_chr c \<or> (of_char c :: nat) \<in> {178, 179, 185})"
proof -
  have a: "normalize_nf PNone = [] \<and> normalize_nf (PFloat Float_nan) = []
      \<and> normalize_nf (PInt n) = str_int n
      \<and> normalize_nf (PFloat (Float_integral n r)) = str_int n
      \<and> normalize_nf (PBool bl) = (if bl then ''True'' else ''False'')"
    by (simp add: normalize_nf_def)
  have b: "py_isdigit (py_strip s) \<longrightarrow> normalize_nf (PStr s) = py_strip s"
    using nf_digits_plain by blast
  have c: "py_isdigit d \<and> py_strip s = d @ ''.0'' \<longrightarrow> normalize_nf (PStr s) = d"
    using nf_digits_dot0 by blast
  have e: "length (filter py_isdigit_chr (py_str v)) \<le> 14
        \<longrightarrow> normalize_cnpj v = [] \<or> length (normalize_cnpj v) = 14"
    using cnpj_length14 by blast
  have f: "v \<noteq> PNone \<and> v \<noteq> PFloat Float_nan \<and> filter py_isdigit_chr (py_str v) \<noteq> []
        \<and> length (filter py_isdigit_chr (py_str v)) \<le> 14
        \<and> list_all dec_chr (filter py_isdigit_chr (py_str v))
        \<longrightarrow> spec_company_id (normalize_cnpj v)"
    using cnpj_spec_id by blast
  show ?thesis
    apply (intro conjI)
    subgoal using a by (rule conjunct1)
    subgoal using a by simp
    subgoal using a by simp
    subgoal using a by simp
    subgoal by (rule str_int_decimal)
    subgoal using a by simp
    subgoal by (rule nf_text_path)
    subgoal by (rule nf_str)
    subgoal by (rule nf_str_result)
    subgoal by (rule b)
    subgoal by (rule c)
    subgoal using nf_fixed_shape[of v] by (rule conjunct1)
    subgoal using nf_fixed_shape[of v] by (rule conjunct2)
    subgoal by (rule normalize_pedido_nf)
    subgoal by (rule cnpj_char)
    subgoal by (rule cnpj_empty_iff)
    subgoal by (rule cnpj_shape)
    subgoal by (rule e)
    subgoal by (rule f)
    subgoal by (rule isdigit_chr_codes)
    done
qed

theorem normalize_canonical_forms_witness:
  "normalize_nf (PStr '' 0042 '') = ''0042''
   \<and> normalize_nf (PStr '' 42.0'') = ''42''
   \<and> normalize_cnpj (PStr ''12.345.678/0001-9'') = ''01234567800019''
   \<and> length (normalize_cnpj (PStr ''12.345.678/0001-9'')) = 14
   \<and> spec_company_id (normalize_cnpj (PStr ''12.345.678/0001-9''))"
proof -
  let ?v = "PStr ''12.345.678/0001-9''"
  have h1: "py_isdigit (py_strip '' 0042 '')" by code_simp
  have h1': "py_strip '' 0042 '' = ''0042''" by code_simp
  have h3: "py_isdigit ''42'' \<and> py_strip '' 42.0'' = ''42'' @ ''.0''" by code_simp
  have h4: "length (filter py_isdigit_chr (py_str ?v)) \<le> 14" by code_simp
  have h5: "filter py_isdigit_chr (py_str ?v) \<noteq> []" by code_simp
  have h6: "list_all dec_chr (filter py_isdigit_chr (py_str ?v))" by code_simp
  have h7: "filter py_isdigit_chr (py_str ?v) = ''1234567800019''" by code_simp
  have h8: "?v \<noteq> PNone \<and> ?v \<noteq> PFloat Float_nan" by simp
  note t1 = normalize_canonical_forms[where s = "'' 0042 ''" and d = "''42''"
      and v = ?v and n = 0 and r = "[]" and bl = True and c = "CHR ''0''"]
  note t2 = normalize_canonical_forms[where s = "'' 42.0''" and d = "''42''"
      and v = ?v and n = 0 and r = "[]" and bl = True and c = "CHR ''0''"]
  have "py_isdigit (py_strip '' 0042 '') \<longrightarrow> normalize_nf (PStr '' 0042 '') = py_strip '' 0042 ''"
    using t1 by - (elim conjE, assumption)
  with h1 have "normalize_nf (PStr '' 0042 '') = py_strip '' 0042 ''" by (rule rev_mp)
  then have w1: "normalize_nf (PStr '' 0042 '') = ''0042''" unfolding h1' .
  have "py_isdigit ''42'' \<and> py_strip '' 42.0'' = ''42'' @ ''.0''
      \<longrightarrow> normalize_nf (PStr '' 42.0'') = ''42''"
    using t2 by - (elim conjE, assumption)
  with h3 have w2: "normalize_nf (PStr '' 42.0'') = ''42''" by (rule rev_mp)
  have "length (filter py_isdigit_chr (py_str ?v)) \<le> 14
      \<longrightarrow> normalize_cnpj ?v = [] \<or> length (normalize_cnpj ?v) = 14"
    using t1 by - (elim conjE, assumption)
  with h4 have l: "normalize_cnpj ?v = [] \<or> length (normalize_cnpj ?v) = 14" by (rule rev_mp)
  have "?v \<noteq> PNone \<and> ?v \<noteq> PFloat Float_nan \<and> filter py_isdigit_chr (py_str ?v) \<noteq> []
        \<and> length (filter py_isdigit_chr (py_str ?v)) \<le> 14
        \<and> list_all dec_chr (filter py_isdigit_chr (py_str ?v))
        \<longrightarrow> spec_company_id (normalize_cnpj ?v)"
    using t1 by - (elim conjE, assumption)
  moreover have "?v \<noteq> PNone \<and> ?v \<noteq> PFloat Float_nan \<and> filter py_isdigit_chr (py_str ?v) \<noteq> []
        \<and> length (filter py_isdigit_chr (py_str ?v)) \<le> 14
        \<and> list_all dec_chr (filter py_isdigit_chr (py_str ?v))"
    using h8 h5 h4 h6 by (intro conjI) (rule conjunct1, assumption, rule conjunct2, assumption+)
  ultimately have w4: "spec_company_id (normalize_cnpj ?v)" by (rule mp)
  then have w3: "length (normalize_cnpj ?v) = 14" unfolding spec_company_id_def by (rule conjunct1)
  have "normalize_cnpj ?v
      = (if ?v = PNone \<or> ?v = PFloat Float_nan \<or> filter py_isdigit_chr (py_str ?v) = [] then []
         else replicate (14 - length (filter py_isdigit_chr (py_str ?v))) (CHR ''0'')
                @ filter py_isdigit_chr (py_str ?v))"
    using t1 by - (elim conjE, assumption)
  then have w5: "normalize_cnpj ?v = ''01234567800019''"
    unfolding h7 by simp
  show ?thesis using w1 w2 w3 w4 w5 by (intro conjI)
qed

section \<open>C10: the normalizers are idempotent\<close>

text \<open>
  C10. Each key normalizer, applied to its own output, returns that output unchanged, for
  every input value: \<^verbatim>\<open>normalize_nf\<close>, \<^verbatim>\<open>normalize_pedido\<close> and
  \<^verbatim>\<open>normalize_cnpj\<close>.
\<close>

theorem normalizers_idempotent:
  "normalize_nf (PStr (normalize_nf v)) = normalize_nf v
   \<and> normalize_pedido (PStr (normalize_pedido v)) = normalize_pedido v
   \<and> normalize_cnpj (PStr (normalize_cnpj v)) = normalize_cnpj v"
  by (simp add: normalize_nf_idem normalize_pedido_nf normalize_cnpj_idem)

section \<open>C8: the chunks of a list\<close>

lemma concat_chunks: "concat (map (\<lambda>k. take s (drop (k * s) xs)) [0..<m]) = take (m * s) xs"
proof (induction m)
  case 0 show ?case by simp
next
  case (Suc m)
  have "take (m * s) xs @ take s (drop (m * s) xs) = take (m * s + s) xs"
    by (simp add: take_add)
  with Suc show ?case by (simp add: add.commute)
qed

lemma chunk_count_covers: "0 < s \<Longrightarrow> n \<le> ((n + s - 1) div s) * (s::nat)"
proof -
  assume s: "0 < s"
  have "(n + s - 1) = ((n + s - 1) div s) * s + (n + s - 1) mod s" by simp
  moreover have "(n + s - 1) mod s \<le> s - 1" using s
    by (metis Suc_pred less_Suc_eq_le mod_less_divisor One_nat_def)
  ultimately show ?thesis using s by linarith
qed

lemma chunk_count_tight: "0 < s \<Longrightarrow> Suc k < (n + s - 1) div s \<Longrightarrow> Suc k * s < (n::nat)"
proof -
  assume s: "0 < s" and k: "Suc k < (n + s - 1) div s"
  then have "Suc (Suc k) \<le> (n + s - 1) div s" by simp
  then have "Suc (Suc k) * s \<le> ((n + s - 1) div s) * s" by (rule mult_le_mono1)
  also have "\<dots> \<le> n + s - 1" by simp
  finally show ?thesis using s by simp
qed


text \<open>
  C8 as stated fails for a chunk size that is not positive: with size 0 the range raises
  \<^verbatim>\<open>ValueError\<close>, and with a negative size the range is empty, so no chunk is
  yielded and the concatenation is empty whatever the list.
\<close>

theorem chunked_nonpositive_counterexample:
  "chunked [1::nat] (- 1) = Inr [] \<and> concat ([] :: nat list list) \<noteq> [1]
   \<and> chunked [1::nat] 0 = Inl ValueError"
  by (simp add: chunked_def py_range_from0_def)

text \<open>
  C8 (amended). For every input list and every chunk size of at least 1, the chunking
  function yields chunks whose in-order concatenation is the input list, each chunk no
  longer than the chunk size, and every chunk but the last of exactly the chunk size.
\<close>

theorem chunked_ok:
  assumes "0 < sz"
  shows "\<exists>cs. chunked items sz = Inr cs \<and> concat cs = items
      \<and> (\<forall>c \<in> set cs. int (length c) \<le> sz)
      \<and> (\<forall>c \<in> set (butlast cs). int (length c) = sz)"
proof -
  define s where "s = nat sz"
  define m where "m = (length items + s - 1) div s"
  define cs where "cs = map (\<lambda>k. take s (drop (k * s) items)) [0..<m]"
  have s: "0 < s" "int s = sz" using assms by (simp_all add: s_def)
  have ch: "chunked items sz = Inr cs"
    using assms by (simp add: chunked_def py_range_from0_def py_slice_len_def cs_def m_def s_def comp_def)
  have c1: "concat cs = items"
    using chunk_count_covers[OF s(1), of "length items"] by (simp add: cs_def concat_chunks m_def)
  have c2: "\<forall>c \<in> set cs. int (length c) \<le> sz" using s by (auto simp: cs_def)
  have c3: "\<forall>c \<in> set (butlast cs). int (length c) = sz"
  proof
    fix c assume c: "c \<in> set (butlast cs)"
    have "butlast cs = map (\<lambda>k. take s (drop (k * s) items)) [0..<m - 1]"
      by (simp add: cs_def butlast_conv_take take_map)
    with c obtain k where k: "k < m - 1" "c = take s (drop (k * s) items)"
      by auto
    then have "Suc k < m" by simp
    then have "Suc k * s < length items" unfolding m_def by (rule chunk_count_tight[OF s(1)])
    then have "length c = s" using k by simp
    then show "int (length c) = sz" using s by simp
  qed
  show ?thesis using ch c1 c2 c3 by blast
qed


theorem chunked_ok_witness:
  "(0::int) < 2 \<and> (\<exists>cs. chunked [1, 2, 3, 4, 5 :: nat] 2 = Inr cs \<and> concat cs = [1, 2, 3, 4, 5]
      \<and> (\<forall>c \<in> set cs. int (length c) \<le> 2)
      \<and> (\<forall>c \<in> set (butlast cs). int (length c) = 2))"
proof -
  have h: "(0::int) < 2" by simp
  show ?thesis using h chunked_ok[OF h, of "[1, 2, 3, 4, 5 :: nat]"] by blast
qed

section \<open>The request executor\<close>

lemma authenticate_ok:
  assumes "http_login e (world st) = (Login_token (Some t), w2)" and "t \<noteq> []"
  shows "authenticate e st = (True, st\<lparr>world := w2, trace := trace st @ [Ev_login], token := Some t\<rparr>)"
  using assms by (simp add: authenticate_def token_truthy_def Let_def)

lemma request_loop_success:
  assumes "http_get e (world st) hdr ps = (Response s (Json d), w3)"
    and "s \<noteq> 401" "s \<noteq> 404" "\<not> (400 \<le> s \<and> s < 600)"
  shows "request_loop e ps n (a # as) hdr st
     = (Inr d, st\<lparr>world := w3, trace := trace st @ [Ev_get hdr ps]\<rparr>)"
  using assms by (auto simp: Let_def)

lemma request_loop_401:
  assumes "http_get e (world st) hdr ps = (Response 401 b, w1)"
  shows "request_loop e ps n (a # rest) hdr st =
     (case authenticate e (st\<lparr>world := w1, trace := trace st @ [Ev_get hdr ps]\<rparr>) of
        (ok, st2) \<Rightarrow> if \<not> ok then (Inr (Obj empty_payload), st2)
                     else request_loop e ps n rest (token st2) st2)"
  using assms by (simp add: Let_def)

lemma api_all_updates:
  "(st :: 'w api)\<lparr>world := w, trace := tr, token := t\<rparr> = \<lparr>world = w, token = t, trace = tr\<rparr>"
  by (cases st) simp

lemma upto13: "[1..(3::int)] = [1, 2, 3]"
  by (simp add: upto.simps)


section \<open>C3: a network error leaves the executor as an exception\<close>

text \<open>
  C3 says that \<^verbatim>\<open>_request\<close> never raises. In the code \<^verbatim>\<open>session.get\<close> stands
  before the \<^verbatim>\<open>try\<close>, so what it raises (connection error, timeout) is not caught:
  with the network down, the first attempt leaves \<^verbatim>\<open>_request\<close> with the exception
  and no payload is returned.
\<close>

theorem request_raises_on_network_error:
  "fst (request env_network_down [] 3 \<lparr>world = (), token = None, trace = []\<rparr>)
     = Inl RequestException"
  by (simp add: request_def env_network_down_def upto.simps Let_def)

section \<open>C4: a 401 response, re-authentication and the attempts\<close>

text \<open>
  C4 as stated fails: the \<^verbatim>\<open>continue\<close> after a successful re-authentication goes
  to the next iteration of \<^verbatim>\<open>for attempt in range(1, retries + 1)\<close>, so the 401
  uses up an attempt. With three attempts, a 401 followed by two 500s and then a good
  answer gives the empty payload, where the same answers without the 401 give the
  records; with one attempt, a 401 followed by a good answer gives the empty payload.
\<close>

theorem reauth_consumes_attempt_counterexample:
  "fst (request env_expired_then_errors [] 3 \<lparr>world = 0, token = Some ''old'', trace = []\<rparr>)
     = Inr (Obj empty_payload)
   \<and> fst (request env_expired_then_errors [] 3 \<lparr>world = 1, token = Some ''new'', trace = []\<rparr>)
     = Inr (Obj sample_payload)
   \<and> sample_payload \<noteq> empty_payload
   \<and> fst (request env_expired_once [] 1 \<lparr>world = 0, token = Some ''old'', trace = []\<rparr>)
     = Inr (Obj empty_payload)
   \<and> fst (request env_expired_once [] 1 \<lparr>world = 1, token = Some ''new'', trace = []\<rparr>)
     = Inr (Obj sample_payload)"
  by (simp add: request_def env_expired_then_errors_def env_expired_once_def upto.simps Let_def
      authenticate_def token_truthy_def sample_payload_def empty_payload_def)

text \<open>
  C4 (amended). At any point of the attempt loop of a request (\<open>a\<close> the attempt being
  made, the first or a later one, \<open>rest\<close> the attempts after it, \<open>hdr\<close> the
  \<^verbatim>\<open>Authorization\<close> header in use, \<open>st\<close> the state reached), when the GET of the
  attempt is answered 401 the executor re-authenticates. If the re-authentication fails,
  the request returns the empty payload at once. If it succeeds, the request goes on with
  the new token and with the attempts \<open>rest\<close> alone: the 401 has used up attempt \<open>a\<close>.
  So after a login that gives a token \<open>t\<close>: when \<open>a\<close> was the last attempt the request
  returns the empty payload, with no further GET; when an attempt remains and its GET,
  sent with \<open>t\<close>, is answered well, the request returns that answer after exactly one
  login, the answer that a request started after the login gets at once.
\<close>

theorem request_reauth:
  assumes g: "http_get e (world st) hdr ps = (Response 401 b, w1)"
  shows "(\<not> fst (authenticate e (st\<lparr>world := w1, trace := trace st @ [Ev_get hdr ps]\<rparr>))
          \<longrightarrow> request_loop e ps n (a # rest) hdr st
               = (Inr (Obj empty_payload),
                  snd (authenticate e (st\<lparr>world := w1, trace := trace st @ [Ev_get hdr ps]\<rparr>))))
       \<and> (fst (authenticate e (st\<lparr>world := w1, trace := trace st @ [Ev_get hdr ps]\<rparr>))
          \<longrightarrow> request_loop e ps n (a # rest) hdr st
               = request_loop e ps n rest
                   (token (snd (authenticate e (st\<lparr>world := w1, trace := trace st @ [Ev_get hdr ps]\<rparr>))))
                   (snd (authenticate e (st\<lparr>world := w1, trace := trace st @ [Ev_get hdr ps]\<rparr>))))
       \<and> (http_login e w1 = (Login_token (Some t), w2) \<and> t \<noteq> []
          \<longrightarrow> request_loop e ps n (a # rest) hdr st
               = request_loop e ps n rest (Some t)
                   \<lparr>world = w2, token = Some t, trace = trace st @ [Ev_get hdr ps, Ev_login]\<rparr>)
       \<and> (http_login e w1 = (Login_token (Some t), w2) \<and> t \<noteq> [] \<and> rest = []
          \<longrightarrow> request_loop e ps n (a # rest) hdr st
               = (Inr (Obj empty_payload),
                  \<lparr>world = w2, token = Some t, trace = trace st @ [Ev_get hdr ps, Ev_login]\<rparr>))
       \<and> (http_login e w1 = (Login_token (Some t), w2) \<and> t \<noteq> [] \<and> rest \<noteq> []
          \<and> http_get e w2 (Some t) ps = (Response s (Json d), w3)
          \<and> s \<noteq> 401 \<and> s \<noteq> 404 \<and> \<not> (400 \<le> s \<and> s < 600)
          \<longrightarrow> request_loop e ps n (a # rest) hdr st
               = (Inr d, \<lparr>world = w3, token = Some t,
                         trace = trace st @ [Ev_get hdr ps, Ev_login, Ev_get (Some t) ps]\<rparr>)
             \<and> (1 \<le> m \<longrightarrow> fst (request e ps m \<lparr>world = w2, token = Some t, trace = tr\<rparr>) = Inr d))"
proof -
  define st1 where "st1 = st\<lparr>world := w1, trace := trace st @ [Ev_get hdr ps]\<rparr>"
  note step = request_loop_401[OF g, of n a rest, folded st1_def]
  have A: "\<not> fst (authenticate e st1)
      \<longrightarrow> request_loop e ps n (a # rest) hdr st = (Inr (Obj empty_payload), snd (authenticate e st1))"
    unfolding step by (cases "authenticate e st1") simp
  have A': "fst (authenticate e st1)
      \<longrightarrow> request_loop e ps n (a # rest) hdr st
          = request_loop e ps n rest (token (snd (authenticate e st1))) (snd (authenticate e st1))"
    unfolding step by (cases "authenticate e st1") simp
  have B: "request_loop e ps n (a # rest) hdr st
      = request_loop e ps n rest (Some t)
          \<lparr>world = w2, token = Some t, trace = trace st @ [Ev_get hdr ps, Ev_login]\<rparr>"
    if l: "http_login e w1 = (Login_token (Some t), w2)" "t \<noteq> []"
  proof -
    have "http_login e (world st1) = (Login_token (Some t), w2)" using l by (simp add: st1_def)
    from authenticate_ok[OF this l(2)] show ?thesis
      unfolding step by (simp add: st1_def api_all_updates)
  qed
  have B0: "request_loop e ps n (a # rest) hdr st
      = (Inr (Obj empty_payload),
         \<lparr>world = w2, token = Some t, trace = trace st @ [Ev_get hdr ps, Ev_login]\<rparr>)"
    if l: "http_login e w1 = (Login_token (Some t), w2)" "t \<noteq> []" and r: "rest = []"
    by (subst B[OF l]) (simp add: r)
  have C: "request_loop e ps n (a # rest) hdr st
       = (Inr d, \<lparr>world = w3, token = Some t,
                 trace = trace st @ [Ev_get hdr ps, Ev_login, Ev_get (Some t) ps]\<rparr>)
     \<and> (1 \<le> m \<longrightarrow> fst (request e ps m \<lparr>world = w2, token = Some t, trace = tr\<rparr>) = Inr d)"
    if l: "http_login e w1 = (Login_token (Some t), w2)" "t \<noteq> []" and r: "rest \<noteq> []"
      and g2: "http_get e w2 (Some t) ps = (Response s (Json d), w3)"
      and s: "s \<noteq> 401" "s \<noteq> 404" "\<not> (400 \<le> s \<and> s < 600)"
  proof -
    obtain a' rest' where r': "rest = a' # rest'" using r by (cases rest) simp_all
    have "request_loop e ps n (a # rest) hdr st
       = request_loop e ps n (a' # rest') (Some t)
           \<lparr>world = w2, token = Some t, trace = trace st @ [Ev_get hdr ps, Ev_login]\<rparr>"
      using B[OF l] unfolding r' .
    also have "\<dots> = (Inr d, \<lparr>world = w3, token = Some t,
                 trace = trace st @ [Ev_get hdr ps, Ev_login, Ev_get (Some t) ps]\<rparr>)"
      using g2 s
      by (subst request_loop_success[where s = s and d = d and ?w3.0 = w3]) simp_all
    finally have 1: "request_loop e ps n (a # rest) hdr st
       = (Inr d, \<lparr>world = w3, token = Some t,
                 trace = trace st @ [Ev_get hdr ps, Ev_login, Ev_get (Some t) ps]\<rparr>)" .
    have 2: "fst (request e ps m \<lparr>world = w2, token = Some t, trace = tr\<rparr>) = Inr d" if m: "1 \<le> m"
    proof -
      have u1: "[1..m] = 1 # [2..m]" using m by (simp add: upto_rec1[of 1 m])
      show ?thesis unfolding request_def u1 using g2 s
        by (subst request_loop_success[where s = s and d = d and ?w3.0 = w3]) simp_all
    qed
    show ?thesis using 1 2 by simp
  qed
  show ?thesis using A A' B B0 C unfolding st1_def by blast
qed

theorem request_reauth_witness:
  "request env_error_then_expired [] 3 \<lparr>world = 0, token = Some ''old'', trace = []\<rparr>
     = (Inr (Obj sample_payload),
        \<lparr>world = 3, token = Some ''new'',
         trace = [Ev_get (Some ''old'') [], Ev_sleep 2, Ev_get (Some ''old'') [], Ev_login,
                  Ev_get (Some ''new'') []]\<rparr>)
   \<and> fst (request env_error_then_expired [] 3 \<lparr>world = 2, token = Some ''new'', trace = []\<rparr>)
       = Inr (Obj sample_payload)
   \<and> request env_expired_once [] 1 \<lparr>world = 0, token = Some ''old'', trace = []\<rparr>
       = (Inr (Obj empty_payload),
          \<lparr>world = 1, token = Some ''new'', trace = [Ev_get (Some ''old'') [], Ev_login]\<rparr>)
   \<and> request env_expired_login_fails [] 3 \<lparr>world = (), token = None, trace = []\<rparr>
       = (Inr (Obj empty_payload), \<lparr>world = (), token = None, trace = [Ev_get None [], Ev_login]\<rparr>)"
proof -
  let ?s0 = "\<lparr>world = 0::nat, token = Some ''old'', trace = []\<rparr>"
  let ?s1 = "\<lparr>world = 1::nat, token = Some ''old'',
              trace = [Ev_get (Some ''old'') [], Ev_sleep 2]\<rparr>"
  have first: "request env_error_then_expired [] 3 ?s0
      = request_loop env_error_then_expired [] 3 [2, 3] (Some ''old'') ?s1"
    by (simp add: request_def upto13 env_error_then_expired_def Let_def)
  have g1: "http_get env_error_then_expired (world ?s1) (Some ''old'') []
      = (Response 401 (Json (Obj empty_payload)), 2)"
    by (simp add: env_error_then_expired_def)
  have h1: "http_login env_error_then_expired 2 = (Login_token (Some ''new''), 2) \<and> ''new'' \<noteq> []
      \<and> [3::int] \<noteq> []
      \<and> http_get env_error_then_expired 2 (Some ''new'') []
          = (Response 200 (Json (Obj sample_payload)), 3)
      \<and> (200::int) \<noteq> 401 \<and> (200::int) \<noteq> 404 \<and> \<not> (400 \<le> (200::int) \<and> (200::int) < 600)
      \<and> (1::int) \<le> 3"
    by (simp add: env_error_then_expired_def)
  from request_reauth[OF g1, where t = "''new''" and ?w2.0 = 2 and s = 200
      and d = "Obj sample_payload" and ?w3.0 = 3 and tr = "[]" and rest = "[3]" and a = 2
      and n = 3 and m = 3] h1
  have a: "request_loop env_error_then_expired [] 3 [2, 3] (Some ''old'') ?s1
       = (Inr (Obj sample_payload),
          \<lparr>world = 3, token = Some ''new'',
           trace = trace ?s1 @ [Ev_get (Some ''old'') [], Ev_login, Ev_get (Some ''new'') []]\<rparr>)
     \<and> fst (request env_error_then_expired [] 3 \<lparr>world = 2, token = Some ''new'', trace = []\<rparr>)
         = Inr (Obj sample_payload)"
    by blast
  have g0: "http_get env_expired_once (world ?s0) (Some ''old'') []
      = (Response 401 (Json (Obj empty_payload)), 1)"
    by (simp add: env_expired_once_def)
  have h0: "http_login env_expired_once 1 = (Login_token (Some ''new''), 1) \<and> ''new'' \<noteq> []"
    by (simp add: env_expired_once_def)
  from request_reauth[OF g0, where t = "''new''" and ?w2.0 = 1 and rest = "[]" and a = 1
      and n = 1] h0
  have "request_loop env_expired_once [] 1 [1] (Some ''old'') ?s0
      = (Inr (Obj empty_payload),
         \<lparr>world = 1, token = Some ''new'',
          trace = trace ?s0 @ [Ev_get (Some ''old'') [], Ev_login]\<rparr>)"
    by blast
  then have c: "request env_expired_once [] 1 ?s0
      = (Inr (Obj empty_payload),
         \<lparr>world = 1, token = Some ''new'', trace = [Ev_get (Some ''old'') [], Ev_login]\<rparr>)"
    by (simp add: request_def upto.simps)
  let ?su = "\<lparr>world = (), token = None, trace = []\<rparr>"
  have g2: "http_get env_expired_login_fails (world ?su) None []
      = (Response 401 (Json (Obj empty_payload)), ())"
    by (simp add: env_expired_login_fails_def)
  have f: "authenticate env_expired_login_fails (?su\<lparr>world := (), trace := trace ?su @ [Ev_get None []]\<rparr>)
      = (False, \<lparr>world = (), token = None, trace = [Ev_get None [], Ev_login]\<rparr>)"
    by (simp add: authenticate_def env_expired_login_fails_def)
  from request_reauth[OF g2, where a = 1 and rest = "[2, 3]" and n = 3]
  have "\<not> fst (authenticate env_expired_login_fails (?su\<lparr>world := (), trace := trace ?su @ [Ev_get None []]\<rparr>))
      \<longrightarrow> request_loop env_expired_login_fails [] 3 [1, 2, 3] None ?su
          = (Inr (Obj empty_payload),
             snd (authenticate env_expired_login_fails (?su\<lparr>world := (), trace := trace ?su @ [Ev_get None []]\<rparr>)))"
    by blast
  then have b: "request env_expired_login_fails [] 3 ?su
      = (Inr (Obj empty_payload), \<lparr>world = (), token = None, trace = [Ev_get None [], Ev_login]\<rparr>)"
    unfolding f by (simp add: request_def upto13)
  from a b c first show ?thesis by simp
qed

section \<open>C5: bounded retries with backoff\<close>

text \<open>
  C5 says that every request failure other than 401 and 404, timeout and network error
  included, is retried up to the attempt bound with a sleep of \<open>2 * attempt\<close> seconds
  after each failed attempt but the last, and that the empty payload is returned after
  the last. The code does so for the failures its handler catches: with a service that
  answers 500 every time, three attempts give GET, sleep 2, GET, sleep 4, GET and the
  empty payload. A timeout or network error is raised by \<^verbatim>\<open>session.get\<close>, which
  stands before the \<^verbatim>\<open>try\<close>: with the network down the request makes one GET, does
  not sleep, makes no second attempt and raises instead of returning the empty payload.
\<close>

theorem request_network_error_not_retried:
  "request env_network_down [] 3 \<lparr>world = (), token = None, trace = []\<rparr>
     = (Inl RequestException, \<lparr>world = (), token = None, trace = [Ev_get None []]\<rparr>)
   \<and> request env_server_error [] 3 \<lparr>world = (), token = None, trace = []\<rparr>
     = (Inr (Obj empty_payload),
        \<lparr>world = (), token = None,
         trace = [Ev_get None [], Ev_sleep 2, Ev_get None [], Ev_sleep 4, Ev_get None []]\<rparr>)"
  by (simp add: request_def env_network_down_def env_server_error_def upto13 Let_def)

section \<open>The classifier\<close>

lemma scan_codes_eq:
  "scan_codes items (en, ca) =
     (en \<or> (\<exists>it \<in> set items. extract_codigo it \<in> ENTREGUE_CODES),
      ca \<or> (\<exists>it \<in> set items. extract_codigo it \<in> CANCELADO_CODES))"
  by (induction items arbitrary: en ca) (auto simp: Let_def)

lemma map_fst_map_entry: "map fst (AList.map_entry k f xs) = map fst xs"
  by (induction xs) auto

lemma scan_items_keys: "map fst (scan_items items flags) = map fst flags"
  by (induction items arbitrary: flags) (auto simp: Let_def map_fst_map_entry)

lemma scan_items_lookup:
  "map_of (scan_items items flags) k =
     (case map_of flags k of
        None \<Rightarrow> None
      | Some (en, ca) \<Rightarrow>
          Some (en \<or> (k \<noteq> [] \<and> (\<exists>it \<in> set items. extract_pedido it = k
                                        \<and> extract_codigo it \<in> ENTREGUE_CODES)),
                ca \<or> (k \<noteq> [] \<and> (\<exists>it \<in> set items. extract_pedido it = k
                                        \<and> extract_codigo it \<in> CANCELADO_CODES))))"
proof (induction items arbitrary: flags)
  case Nil
  show ?case by (auto split: option.splits)
next
  case (Cons it its)
  define ped where "ped = extract_pedido it"
  define cod where "cod = extract_codigo it"
  show ?case
  proof (cases "ped = [] \<or> map_of flags ped = None")
    case True
    have s: "scan_items (it # its) flags = scan_items its flags"
      using True by (simp add: ped_def Let_def)
    show ?thesis unfolding s Cons.IH using True
      by (auto simp: ped_def split: option.splits)
  next
    case False
    define f1 where "f1 = (if cod \<in> ENTREGUE_CODES
        then AList.map_entry ped (\<lambda>(en, ca). (True, ca)) flags else flags)"
    define f2 where "f2 = (if cod \<in> CANCELADO_CODES
        then AList.map_entry ped (\<lambda>(en, ca). (en, True)) f1 else f1)"
    have s: "scan_items (it # its) flags = scan_items its f2"
      using False by (auto simp: ped_def cod_def f1_def f2_def Let_def)
    have m1: "map_of f1 k' = (case map_of flags k' of None \<Rightarrow> None
        | Some (en, ca) \<Rightarrow> Some (en \<or> (k' = ped \<and> cod \<in> ENTREGUE_CODES), ca))" for k'
      by (auto simp: f1_def map_of_map_entry split: option.splits)
    have m2: "map_of f2 k = (case map_of flags k of None \<Rightarrow> None
        | Some (en, ca) \<Rightarrow> Some (en \<or> (k = ped \<and> cod \<in> ENTREGUE_CODES),
                                   ca \<or> (k = ped \<and> cod \<in> CANCELADO_CODES)))"
      by (auto simp: f2_def m1 map_of_map_entry split: option.splits)
    show ?thesis unfolding s Cons.IH m2 using False
      by (auto simp: ped_def cod_def split: option.splits)
  qed
qed

section \<open>C1: classification and its precedence\<close>

text \<open>
  C1. For every list of occurrence records the classifier gives ENTREGUE when the
  extracted code of some record is in the ENTREGUE set, otherwise CANCELADO when some
  code is in the CANCELADO set, otherwise the variant's default: \<^verbatim>\<open>-\<close> in the
  invoice/company variant, and DESPACHADO in the order-number variant, where the records
  of a key are those that carry its order number. ENTREGUE wins when codes of both sets
  are there, and a permutation of the records does not change the result.
\<close>

theorem classifier_precedence:
  "status_of_flags ''-'' (scan_codes items (False, False)) =
     (if \<exists>it \<in> set items. extract_codigo it \<in> ENTREGUE_CODES then ''ENTREGUE''
      else if \<exists>it \<in> set items. extract_codigo it \<in> CANCELADO_CODES then ''CANCELADO''
      else ''-'')
   \<and> (mset items = mset items' \<longrightarrow>
        status_of_flags ''-'' (scan_codes items (False, False))
          = status_of_flags ''-'' (scan_codes items' (False, False)))
   \<and> (map_of flags k = Some (False, False) \<longrightarrow>
        map_option (status_of_flags ''DESPACHADO'') (map_of (scan_items items flags) k) =
          Some (if k \<noteq> [] \<and> (\<exists>it \<in> set items. extract_pedido it = k
                                 \<and> extract_codigo it \<in> ENTREGUE_CODES) then ''ENTREGUE''
                else if k \<noteq> [] \<and> (\<exists>it \<in> set items. extract_pedido it = k
                                 \<and> extract_codigo it \<in> CANCELADO_CODES) then ''CANCELADO''
                else ''DESPACHADO''))
   \<and> (mset items = mset items' \<longrightarrow>
        map_of (scan_items items flags) k = map_of (scan_items items' flags) k)"
proof -
  have a: "status_of_flags ''-'' (scan_codes items (False, False)) =
     (if \<exists>it \<in> set items. extract_codigo it \<in> ENTREGUE_CODES then ''ENTREGUE''
      else if \<exists>it \<in> set items. extract_codigo it \<in> CANCELADO_CODES then ''CANCELADO''
      else ''-'')"
    by (simp add: scan_codes_eq status_of_flags_def)
  have b: "mset items = mset items' \<longrightarrow>
        status_of_flags ''-'' (scan_codes items (False, False))
          = status_of_flags ''-'' (scan_codes items' (False, False))"
  proof
    assume "mset items = mset items'"
    then have "set items = set items'" by (rule mset_eq_setD)
    then show "status_of_flags ''-'' (scan_codes items (False, False))
          = status_of_flags ''-'' (scan_codes items' (False, False))"
      by (simp add: scan_codes_eq)
  qed
  have c: "map_of flags k = Some (False, False) \<longrightarrow>
        map_option (status_of_flags ''DESPACHADO'') (map_of (scan_items items flags) k) =
          Some (if k \<noteq> [] \<and> (\<exists>it \<in> set items. extract_pedido it = k
                                 \<and> extract_codigo it \<in> ENTREGUE_CODES) then ''ENTREGUE''
                else if k \<noteq> [] \<and> (\<exists>it \<in> set items. extract_pedido it = k
                                 \<and> extract_codigo it \<in> CANCELADO_CODES) then ''CANCELADO''
                else ''DESPACHADO'')"
  proof
    assume f: "map_of flags k = Some (False, False)"
    show "map_option (status_of_flags ''DESPACHADO'') (map_of (scan_items items flags) k) =
          Some (if k \<noteq> [] \<and> (\<exists>it \<in> set items. extract_pedido it = k
                                 \<and> extract_codigo it \<in> ENTREGUE_CODES) then ''ENTREGUE''
                else if k \<noteq> [] \<and> (\<exists>it \<in> set items. extract_pedido it = k
                                 \<and> extract_codigo it \<in> CANCELADO_CODES) then ''CANCELADO''
                else ''DESPACHADO'')"
      unfolding scan_items_lookup f by (simp add: status_of_flags_def)
  qed
  have d: "mset items = mset items' \<longrightarrow>
        map_of (scan_items items flags) k = map_of (scan_items items' flags) k"
  proof
    assume "mset items = mset items'"
    then have s: "set items = set items'" by (rule mset_eq_setD)
    show "map_of (scan_items items flags) k = map_of (scan_items items' flags) k"
      unfolding scan_items_lookup s by (rule refl)
  qed
  from a b c d show ?thesis by (intro conjI)
qed

theorem classifier_precedence_witness:
  "status_of_flags ''-'' (scan_codes [item_with_code ''25'', item_with_code ''1''] (False, False))
     = ''ENTREGUE''
   \<and> status_of_flags ''-'' (scan_codes [item_with_code ''1'', item_with_code ''25''] (False, False))
     = ''ENTREGUE''
   \<and> map_option (status_of_flags ''DESPACHADO'')
        (map_of (scan_items [item_of_order ''555'' ''25'', item_of_order ''777'' ''1'']
                   [(''555'', (False, False))]) ''555'')
     = Some ''CANCELADO''"
proof -
  let ?xs = "[item_with_code ''25'', item_with_code ''1'']"
  let ?ys = "[item_with_code ''1'', item_with_code ''25'']"
  let ?zs = "[item_of_order ''555'' ''25'', item_of_order ''777'' ''1'']"
  let ?fl = "[(''555'', (False, False))]"
  note t = classifier_precedence[of ?xs ?ys ?fl "''555''"]
  note u = classifier_precedence[of ?zs ?zs ?fl "''555''"]
  have c1: "extract_codigo (item_with_code ''1'') = ''1''" by code_simp
  have c25: "extract_codigo (item_with_code ''25'') = ''25''" by code_simp
  have e1: "\<exists>it \<in> set ?xs. extract_codigo it \<in> ENTREGUE_CODES"
    by (simp add: c1 c25 ENTREGUE_CODES_def)
  have m: "mset ?xs = mset ?ys" by (simp add: add.commute)
  have w1: "status_of_flags ''-'' (scan_codes ?xs (False, False)) = ''ENTREGUE''"
    using t e1 by simp
  have w2: "status_of_flags ''-'' (scan_codes ?ys (False, False)) = ''ENTREGUE''"
    using t m w1 by metis
  have o1: "extract_pedido (item_of_order ''555'' ''25'') = ''555''" by code_simp
  have o2: "extract_pedido (item_of_order ''777'' ''1'') = ''777''" by code_simp
  have k1: "extract_codigo (item_of_order ''555'' ''25'') = ''25''" by code_simp
  have k2: "extract_codigo (item_of_order ''777'' ''1'') = ''1''" by code_simp
  have f: "map_of ?fl ''555'' = Some (False, False)" by simp
  have n1: "\<not> (''555'' \<noteq> [] \<and> (\<exists>it \<in> set ?zs. extract_pedido it = ''555''
        \<and> extract_codigo it \<in> ENTREGUE_CODES))"
    by (simp add: o1 o2 k1 k2 ENTREGUE_CODES_def)
  have n2: "''555'' \<noteq> [] \<and> (\<exists>it \<in> set ?zs. extract_pedido it = ''555''
        \<and> extract_codigo it \<in> CANCELADO_CODES)"
    by (simp add: o1 o2 k1 k2 CANCELADO_CODES_def)
  have w3: "map_option (status_of_flags ''DESPACHADO'') (map_of (scan_items ?zs ?fl) ''555'')
      = Some ''CANCELADO''"
    using u f n1 n2 by presburger
  from w1 w2 w3 show ?thesis by (intro conjI)
qed

section \<open>C6: pagination\<close>

text \<open>
  C6 says that a failed page query contributes no records and does not abort the
  remaining pages. A page query whose \<^verbatim>\<open>session.get\<close> raises (a timeout, a network
  error) leaves \<^verbatim>\<open>_request\<close> as an exception, which \<^verbatim>\<open>fetch_ocorrencias\<close> does
  not catch: with three pages reported and the GET of page 1 raising, the call raises,
  page 2 is never asked and the record of page 0 is lost.
\<close>

theorem fetch_aborts_on_page_error:
  "fst (fetch_ocorrencias_preventivos env_page_one_down ''2025/01/01 00:00:00''
          ''2026/08/24 23:59:59'' [''555''] \<lparr>world = (), token = Some ''tok'', trace = []\<rparr>)
     = Inl RequestException
   \<and> map (\<lambda>ps. map_of ps ''page'')
       (get_params (trace (snd (fetch_ocorrencias_preventivos env_page_one_down
          ''2025/01/01 00:00:00'' ''2026/08/24 23:59:59'' [''555'']
          \<lparr>world = (), token = Some ''tok'', trace = []\<rparr>))))
     = [Some (PInt 0), Some (PInt 1)]"
  by (simp add: fetch_ocorrencias_preventivos_def page_params_def request_def upto13
      env_page_one_down_def total_pages_of_def respostas_of_def upto.simps Let_def)

section \<open>C7: the lookup table\<close>

text \<open>
  C7 says that for every list of keys the resolver returns a table with one entry for
  each key, failed queries leaving the default. A query whose \<^verbatim>\<open>session.get\<close>
  raises (a timeout, a network error) leaves \<^verbatim>\<open>_request\<close> as an exception, which
  neither \<^verbatim>\<open>fetch_ocorrencias\<close> nor \<^verbatim>\<open>resolver_status\<close> catches: with the network
  down, both variants raise on the first key and return no table.
\<close>

theorem resolver_status_raises_on_network_error:
  "fst (resolver_status_cobranca env_network_down [(''7'', ''00000000000191'')] ())
     = Inl RequestException
   \<and> fst (resolver_status_preventivos env_network_down
            (\<lambda>i. (''2025/01/01 00:00:00'', ''2026/08/24 23:59:59'')) [''555''] ())
     = Inl RequestException"
  by (simp add: resolver_status_cobranca_def resolver_status_preventivos_def
      fetch_ocorrencias_cobranca_def fetch_ocorrencias_preventivos_def request_def upto13
      env_network_down_def api_init_def authenticate_def chunked_def SUBLOTE_SIZE_def
      py_range_from0_def py_slice_len_def initial_flags_def Let_def)

section \<open>C2: the statuses written back\<close>

text \<open>
  C2 says that every data row gets the empty string when its key is invalid and otherwise
  the status the table assigns to its key. In the order-number variant
  \<^verbatim>\<open>load_pedidos_from_sheet\<close> drops a cell \<^verbatim>\<open>nan\<close> from the keys to look up, as
  it drops an empty one, but \<^verbatim>\<open>main\<close> normalizes the raw cells again and tests
  emptiness alone: the row \<^verbatim>\<open>nan\<close> is never looked up, the table has no entry for
  it, and it is written back as \<^verbatim>\<open>DESPACHADO\<close>, the status of a key that was looked
  up and had no record, where the empty rows beside it get the empty string. And when a
  \<^verbatim>\<open>session.get\<close> raises, \<^verbatim>\<open>main\<close> of either variant raises and writes no
  status at all. On a service that answers, the invoice/company variant aligns the
  statuses with the rows: below, a header, two rows of the same key written differently
  and a row with no invoice number between them.
\<close>

theorem main_nan_row_gets_default:
  "main_preventivos env_server_error (\<lambda>i. (''2025/01/01 00:00:00'', ''2026/08/24 23:59:59''))
       [[PStr ''nan''], [PStr ''''], []] ()
     = Inr (Some [''DESPACHADO'', [], []])
   \<and> load_pedidos_from_sheet [[PStr ''nan''], [PStr ''''], []]
     = ([], [PStr ''nan'', PStr '''', PStr ''''], False)
   \<and> resolver_status_preventivos env_server_error
         (\<lambda>i. (''2025/01/01 00:00:00'', ''2026/08/24 23:59:59'')) [] ()
     = (Inr [], \<lparr>world = (), token = Some ''tok'', trace = [Ev_login]\<rparr>)
   \<and> main_preventivos env_network_down (\<lambda>i. (''2025/01/01 00:00:00'', ''2026/08/24 23:59:59''))
       [[PStr ''555'']] ()
     = Inl RequestException
   \<and> main_cobranca env_network_down [[PStr ''7'', PStr ''191'']] () = Inl RequestException
   \<and> main_cobranca env_expired_once
       [[PStr ''NF'', PStr ''CNPJ''], [PStr ''7.0'', PStr ''191''], [PStr '''', PStr ''191''],
        [PStr '' 7'', PStr ''00.000.000/0001-91'']] 1
     = Inr (Some [''ENTREGUE'', [], ''ENTREGUE''])"
  by code_simp

end
